theory Spec2Isabelle
  imports Complex_Main "HOL-Library.Char_ord" "HOL-Library.List_Lexorder"
begin

section \<open>Dataframes\<close>

text \<open>
  A pandas dataframe is a list of labelled, typed columns and a list of rows. The row index
  is not part of the model: the pipeline concatenates with \<open>ignore_index=True\<close> and
  writes with \<open>index=False\<close>. A cell is a missing value (NaN or None), a number or
  a string. Numbers are exact rationals: the rounding of 64-bit floats is not modelled.
  Cells are compared as Python compares the members of two tuples, with missing values
  equal to each other, which is how \<open>isin\<close> and \<open>drop_duplicates\<close> hash them.
  A column read by \<open>read_csv\<close> is numeric (int64 or float64; a column of missing
  values only is float64) or it is an object column. A bool column can hold no missing value
  and is not selected by \<open>np.number\<close>, so it goes through \<open>clean_dataframe\<close>
  unchanged, as an \<open>Object\<close> column does.
\<close>

datatype cell = Null | Num rat | Str string

datatype dtype = Numeric | Object

record dataframe =
  columns :: "(string \<times> dtype) list"
  rows :: "cell list list"

text \<open>\<open>pd.DataFrame()\<close>: no columns, no rows.\<close>

definition empty_frame :: dataframe where
  "empty_frame = \<lparr>columns = [], rows = []\<rparr>"

text \<open>\<open>df.empty\<close>: true when either axis has length 0.\<close>

definition is_empty :: "dataframe \<Rightarrow> bool" where
  "is_empty df = (columns df = [] \<or> rows df = [])"

definition labels :: "dataframe \<Rightarrow> string list" where
  "labels df = map fst (columns df)"

subsection \<open>Rows: boolean indexing, isin, duplicates\<close>

text \<open>\<open>df[mask]\<close> keeps the rows whose mask entry is true.\<close>

definition boolean_index :: "'a list \<Rightarrow> bool list \<Rightarrow> 'a list" where
  "boolean_index xs flags = map fst (filter snd (zip xs flags))"

text \<open>\<open>s.isin(values)\<close>, one flag per entry of \<open>s\<close>.\<close>

definition isin :: "'a list \<Rightarrow> 'a list \<Rightarrow> bool list" where
  "isin s vals = map (\<lambda>t. t \<in> set vals) s"

text \<open>
  \<open>duplicated()\<close> with the default \<open>keep='first'\<close> flags a row that equals an
  earlier row. On an empty frame pandas returns an empty series, and
  \<open>drop_duplicates\<close> returns the frame as it is.
\<close>

fun duplicated_from :: "'a list \<Rightarrow> 'a list \<Rightarrow> bool list" where
  "duplicated_from seen [] = []"
| "duplicated_from seen (r # rs) = (r \<in> set seen) # duplicated_from (r # seen) rs"

definition duplicated :: "dataframe \<Rightarrow> bool list" where
  "duplicated df = (if is_empty df then [] else duplicated_from [] (rows df))"

definition drop_duplicates :: "dataframe \<Rightarrow> dataframe" where
  "drop_duplicates df =
     (if is_empty df then df
      else df\<lparr>rows := boolean_index (rows df) (map Not (duplicated df))\<rparr>)"

subsection \<open>Concatenation\<close>

definition common_dtype :: "dtype \<Rightarrow> dtype \<Rightarrow> dtype" where
  "common_dtype a b = (if a = Numeric \<and> b = Numeric then Numeric else Object)"

definition cell_at :: "cell list \<Rightarrow> nat \<Rightarrow> cell" where
  "cell_at r i = (if i < length r then r ! i else Null)"

fun index_of :: "'a \<Rightarrow> 'a list \<Rightarrow> nat option" where
  "index_of x [] = None"
| "index_of x (y # ys) = (if x = y then Some 0 else map_option Suc (index_of x ys))"

text \<open>A row of a frame with labels \<open>src\<close>, laid out under the labels \<open>dst\<close>.\<close>

definition reindex_row :: "string list \<Rightarrow> string list \<Rightarrow> cell list \<Rightarrow> cell list" where
  "reindex_row src dst r =
     map (\<lambda>l. case index_of l src of None \<Rightarrow> Null | Some i \<Rightarrow> cell_at r i) dst"

text \<open>
  The dtype of a column that both frames have. pandas leaves a frame without rows out
  when it decides the dtype, unless neither frame has rows.
\<close>

definition joined_dtype :: "bool \<Rightarrow> bool \<Rightarrow> dtype \<Rightarrow> dtype \<Rightarrow> dtype" where
  "joined_dtype a_has_rows b_has_rows t u =
     (if a_has_rows \<and> \<not> b_has_rows then t
      else if b_has_rows \<and> \<not> a_has_rows then u
      else common_dtype t u)"

definition union_columns ::
  "(dtype \<Rightarrow> dtype \<Rightarrow> dtype) \<Rightarrow> (string \<times> dtype) list \<Rightarrow> (string \<times> dtype) list
     \<Rightarrow> (string \<times> dtype) list" where
  "union_columns j a b =
     map (\<lambda>(l, t). case map_of b l of None \<Rightarrow> (l, t) | Some u \<Rightarrow> (l, j t u)) a
     @ filter (\<lambda>(l, u). l \<notin> set (map fst a)) b"

text \<open>
  \<open>pd.concat([a, b], ignore_index=True)\<close> with the default outer join on the columns.
  When both frames carry the same labels the rows are stacked as they are; otherwise the
  result has the labels of \<open>a\<close> followed by the new labels of \<open>b\<close>, and a row gets a
  missing value under every label its frame does not have. Labels are unique in a frame
  read from CSV or Parquet.
\<close>

definition concat_frames :: "dataframe \<Rightarrow> dataframe \<Rightarrow> dataframe" where
  "concat_frames a b =
     (let j = joined_dtype (rows a \<noteq> []) (rows b \<noteq> []) in
      if labels a = labels b then
        \<lparr>columns = map (\<lambda>((l, t), (_, u)). (l, j t u)) (zip (columns a) (columns b)),
         rows = rows a @ rows b\<rparr>
      else
        (let cols = union_columns j (columns a) (columns b) in
         \<lparr>columns = cols,
          rows = map (reindex_row (labels a) (map fst cols)) (rows a)
               @ map (reindex_row (labels b) (map fst cols)) (rows b)\<rparr>))"

section \<open>Cleaning\<close>

text \<open>
  The statistics \<open>clean_dataframe\<close> asks pandas for. They are library code, taken as
  parameters: \<open>median\<close> and \<open>quantile\<close> of a column (no value, that is NaN,
  when pandas has none) and \<open>mode\<close>, the most frequent values in pandas' order.
\<close>

record pandas_stats =
  median :: "cell list \<Rightarrow> rat option"
  mode :: "cell list \<Rightarrow> cell list"
  quantile :: "cell list \<Rightarrow> rat \<Rightarrow> rat option"

definition num_cell :: "rat option \<Rightarrow> cell" where
  "num_cell v = (case v of None \<Rightarrow> Null | Some x \<Rightarrow> Num x)"

text \<open>\<open>df[col]\<close> by position (labels are unique), and the assignment \<open>df[col] = s\<close>.\<close>

definition column :: "nat \<Rightarrow> cell list list \<Rightarrow> cell list" where
  "column i rs = map (\<lambda>r. cell_at r i) rs"

definition set_column :: "nat \<Rightarrow> cell list \<Rightarrow> cell list list \<Rightarrow> cell list list" where
  "set_column i vs rs = map (\<lambda>(r, v). r[i := v]) (zip rs vs)"

definition fillna :: "cell \<Rightarrow> cell list \<Rightarrow> cell list" where
  "fillna v col = map (\<lambda>c. if c = Null then v else c) col"

text \<open>
  \<open>Series.clip(lower, upper)\<close> with scalar bounds: a NaN bound is no bound, two bounds
  are put in order, and a missing value stays missing.
\<close>

definition clip_cell :: "rat option \<Rightarrow> rat option \<Rightarrow> cell \<Rightarrow> cell" where
  "clip_cell lower upper c =
     (case c of
        Num x \<Rightarrow>
          (let (lo, hi) = (case (lower, upper) of
                             (Some a, Some b) \<Rightarrow> (Some (min a b), Some (max a b))
                           | p \<Rightarrow> p);
               y = (case lo of Some a \<Rightarrow> (if x < a then a else x) | None \<Rightarrow> x);
               z = (case hi of Some b \<Rightarrow> (if b < y then b else y) | None \<Rightarrow> y)
           in Num z)
      | _ \<Rightarrow> c)"

definition clip :: "rat option \<Rightarrow> rat option \<Rightarrow> cell list \<Rightarrow> cell list" where
  "clip lower upper col = map (clip_cell lower upper) col"

text \<open>Lines 178 to 182: the bounds from the quartiles; NaN quartiles give NaN bounds.\<close>

definition iqr_bounds :: "rat option \<Rightarrow> rat option \<Rightarrow> rat option \<times> rat option" where
  "iqr_bounds Q1 Q3 =
     (case (Q1, Q3) of
        (Some q1, Some q3) \<Rightarrow>
          (let IQR = q3 - q1 in (Some (q1 - (3 / 2) * IQR), Some (q3 + (3 / 2) * IQR)))
      | _ \<Rightarrow> (None, None))"

text \<open>The body of the loop over \<open>df.columns\<close>, lines 160 to 168.\<close>

definition fill_step ::
  "pandas_stats \<Rightarrow> (string \<times> dtype) list \<Rightarrow> nat \<Rightarrow> cell list list \<Rightarrow> cell list list" where
  "fill_step lib cols i rs =
     (let col = column i rs in
      if Null \<in> set col then
        (if snd (cols ! i) = Numeric then
           set_column i (fillna (num_cell (median lib col)) col) rs
         else
           (let mode_vals = mode lib col in
            if length mode_vals > 0 then set_column i (fillna (mode_vals ! 0) col) rs
            else set_column i (fillna (Str ''Unknown'') col) rs))
      else rs)"

text \<open>\<open>df.isnull().sum()\<close>: the number of missing values of every column.\<close>

definition missing :: "dataframe \<Rightarrow> nat list" where
  "missing df = map (\<lambda>i. count_list (column i (rows df)) Null) [0..<length (columns df)]"

text \<open>\<open>df.select_dtypes(include=[np.number]).columns\<close>, as positions.\<close>

definition num_cols :: "dataframe \<Rightarrow> nat list" where
  "num_cols df = filter (\<lambda>i. snd (columns df ! i) = Numeric) [0..<length (columns df)]"

text \<open>The body of the loop over \<open>num_cols\<close>, lines 178 to 183.\<close>

definition clip_step :: "pandas_stats \<Rightarrow> nat \<Rightarrow> cell list list \<Rightarrow> cell list list" where
  "clip_step lib i rs =
     (let col = column i rs;
          Q1 = quantile lib col (1 / 4);
          Q3 = quantile lib col (3 / 4);
          (lower, upper) = iqr_bounds Q1 Q3
      in set_column i (clip lower upper col) rs)"

text \<open>
  \<open>clean_dataframe\<close>, lines 152 to 185. The in-place \<open>fillna\<close> on \<open>df[col]\<close>
  writes through to \<open>df\<close>, as it does in pandas before copy-on-write.
\<close>

definition clean_dataframe :: "pandas_stats \<Rightarrow> dataframe \<Rightarrow> dataframe" where
  "clean_dataframe lib df =
     (let df1 = (if list_ex (\<lambda>m. m \<noteq> 0) (missing df)
                 then df\<lparr>rows := fold (fill_step lib (columns df)) [0..<length (columns df)] (rows df)\<rparr>
                 else df);
          dupes = count_list (duplicated df1) True;
          df2 = (if dupes > 0 then drop_duplicates df1 else df1)
      in df2\<lparr>rows := fold (clip_step lib) (num_cols df2) (rows df2)\<rparr>)"

text \<open>
  The three steps as the specification words them: every missing value of a column is
  replaced by the column's fill value, duplicate rows are dropped, and every value of a
  numeric column is clipped to the bounds of that column.
\<close>

definition fill_value :: "pandas_stats \<Rightarrow> dtype \<Rightarrow> cell list \<Rightarrow> cell" where
  "fill_value lib t col =
     (if t = Numeric then num_cell (median lib col)
      else (case mode lib col of [] \<Rightarrow> Str ''Unknown'' | m # _ \<Rightarrow> m))"

definition map_cells :: "(nat \<Rightarrow> cell \<Rightarrow> cell) \<Rightarrow> cell list list \<Rightarrow> cell list list" where
  "map_cells g rs = map (\<lambda>r. map (\<lambda>j. g j (r ! j)) [0..<length r]) rs"

definition fill_nulls :: "pandas_stats \<Rightarrow> dataframe \<Rightarrow> dataframe" where
  "fill_nulls lib df =
     df\<lparr>rows := map_cells
        (\<lambda>j c. if j < length (columns df) \<and> c = Null
               then fill_value lib (snd (columns df ! j)) (column j (rows df)) else c)
        (rows df)\<rparr>"

definition clip_to_iqr :: "pandas_stats \<Rightarrow> cell list \<Rightarrow> cell \<Rightarrow> cell" where
  "clip_to_iqr lib col c =
     (case (quantile lib col (1 / 4), quantile lib col (3 / 4)) of
        (Some q1, Some q3) \<Rightarrow>
          clip_cell (Some (q1 - (3 / 2) * (q3 - q1))) (Some (q3 + (3 / 2) * (q3 - q1))) c
      | _ \<Rightarrow> c)"

definition clip_outliers :: "pandas_stats \<Rightarrow> dataframe \<Rightarrow> dataframe" where
  "clip_outliers lib df =
     df\<lparr>rows := map_cells
        (\<lambda>j c. if j < length (columns df) \<and> snd (columns df ! j) = Numeric
               then clip_to_iqr lib (column j (rows df)) c else c)
        (rows df)\<rparr>"

section \<open>The merge with the stored frame\<close>

text \<open>
  Lines 239 to 245 of \<open>main\<close>. \<open>df.apply(tuple, axis=1)\<close> is the list of rows, each
  row a tuple of its cells.
\<close>

definition merge_dedup :: "dataframe \<Rightarrow> dataframe \<Rightarrow> dataframe" where
  "merge_dedup df_old df_new =
     (let df_final =
        (if \<not> is_empty df_old then
           (let kept = df_new\<lparr>rows := boolean_index (rows df_new)
                                   (map Not (isin (rows df_new) (rows df_old)))\<rparr>
            in concat_frames df_old kept)
         else df_new)
      in drop_duplicates df_final)"

text \<open>The first occurrence of every element, in order: what dropping duplicates means.\<close>

fun first_occurrences :: "'a list \<Rightarrow> 'a list" where
  "first_occurrences [] = []"
| "first_occurrences (x # xs) = x # filter (\<lambda>y. y \<noteq> x) (first_occurrences xs)"

section \<open>Strings and object keys\<close>

text \<open>
  A string is a list of bytes; \<open>str.lower\<close> is modelled on ASCII letters, which is what
  the file names of \<open>EXPECTED_FILES\<close> are made of.
\<close>

definition lower_char :: "char \<Rightarrow> char" where
  "lower_char c =
     (let n = (of_char c :: nat) in if 65 \<le> n \<and> n \<le> 90 then char_of (n + 32) else c)"

definition lower :: "string \<Rightarrow> string" where
  "lower s = map lower_char s"

text \<open>\<open>s.replace(old, new)\<close>: every occurrence, left to right, without overlap.\<close>

function replace :: "string \<Rightarrow> string \<Rightarrow> string \<Rightarrow> string" where
  "replace old new s =
     (if old = [] then new @ concat (map (\<lambda>c. c # new) s)
      else (case s of
              [] \<Rightarrow> []
            | c # cs \<Rightarrow>
                if take (length old) s = old then new @ replace old new (drop (length old) s)
                else c # replace old new cs))"
  by pat_completeness auto
termination
  by (relation "measure (\<lambda>(old, new, s). length s)") auto

declare replace.simps [simp del]

definition EXPECTED_FILES :: "(string \<times> string) list" where
  "EXPECTED_FILES =
   [(''fy_2024_snf_vbp_aggregate_performance.csv'', ''fy_2024_snf_vbp_aggregate_performance_parquet''),
    (''fy_2024_snf_vbp_facility_performance.csv'', ''fy_2024_snf_vbp_facility_performance_parquet''),
    (''nh_citationdescriptions_oct2024.csv'', ''nh_citationdescriptions_oct2024_parquet''),
    (''nh_firesafetycitations_oct2024.csv'', ''nh_firesafetycitations_oct2024_parquet''),
    (''nh_healthcitations_oct2024.csv'', ''nh_healthcitations_oct2024_parquet''),
    (''nh_hlthinspeccutpointsstate_oct2024.csv'', ''nh_hlthinspeccutpointsstate_oct2024_parquet''),
    (''nh_covidvaxaverages_20241027.csv'', ''nh_covidvaxaverages_20241027_parquet''),
    (''nh_covidvaxprovider_20241027.csv'', ''nh_covidvaxprovider_20241027_parquet''),
    (''nh_datacollectionintervals_oct2024.csv'', ''nh_datacollectionintervals_oct2024_parquet''),
    (''nh_surveydates_oct2024.csv'', ''nh_surveydates_oct2024_parquet''),
    (''nh_surveysummary_oct2024.csv'', ''nh_surveysummary_oct2024_parquet''),
    (''nh_ownership_oct2024.csv'', ''nh_ownership_oct2024_parquet''),
    (''nh_penalties_oct2024.csv'', ''nh_penalties_oct2024_parquet''),
    (''nh_providerinfo_oct2024.csv'', ''nh_providerinfo_oct2024_parquet''),
    (''nh_qualitymsr_claims_oct2024.csv'', ''nh_qualitymsr_claims_oct2024_parquet''),
    (''nh_qualitymsr_mds_oct2024.csv'', ''nh_qualitymsr_mds_oct2024_parquet''),
    (''nh_stateusaverages_oct2024.csv'', ''nh_stateusaverages_oct2024_parquet''),
    (''skilled_nursing_facility_quality_reporting_program_national_data_oct2024.csv'',
     ''skilled_nursing_facility_quality_reporting_program_national_data_oct2024_parquet''),
    (''skilled_nursing_facility_quality_reporting_program_provider_data_oct2024.csv'',
     ''skilled_nursing_facility_quality_reporting_program_provider_data_oct2024_parquet''),
    (''swing_bed_snf_data_oct2024.csv'', ''swing_bed_snf_data_oct2024_parquet'')]"

text \<open>Lines 231 to 236: the parquet name of a file, and its key.\<close>

definition parquet_name :: "string \<Rightarrow> string" where
  "parquet_name file_name =
     (let file_name_lower = lower file_name in
      if file_name_lower \<in> set (map fst EXPECTED_FILES)
      then (case map_of EXPECTED_FILES file_name_lower of Some v \<Rightarrow> v | None \<Rightarrow> [])
      else replace ''.csv'' ''_parquet'' file_name_lower)"

section \<open>The world outside the pipeline\<close>

text \<open>
  An exception is \<open>SystemExit\<close> with its status, or an \<open>Exception\<close> carrying what the
  library said. What the pipeline cannot decide itself is a record of outcomes, where the
  \<open>Inl\<close> of a sum is the exception a call raises:
  \<^item> the three environment variables (lines 17 to 19; \<open>SILVER_PREFIX\<close> has its default);
  \<open>token_response\<close>, what \<open>get_access_token\<close> ends with;
  \<^item> \<open>drive_listing\<close> and \<open>drive_content\<close>, the answers of Google Drive to
  \<open>list_csv_files\<close> and \<open>download_csv\<close>;
  \<^item> \<open>csv_parse\<close>, the frame \<open>pd.read_csv\<close> makes of a text;
  \<^item> \<open>clean_fault\<close>, an exception a pandas call raises inside \<open>clean_dataframe\<close>;
  \<^item> \<open>s3_get_fault\<close>, an exception of \<open>get_object\<close> other than \<open>NoSuchKey\<close>, and
  \<open>s3_put_fault\<close>, an exception of \<open>to_parquet\<close> or \<open>put_object\<close>;
  \<^item> \<open>stats\<close>, the statistics of pandas.
  A file of the listing always has its \<open>id\<close> and its \<open>name\<close>, the fields the listing
  asks for. A frame read back from Parquet is the frame that was written.
\<close>

datatype py_exception = SystemExit int | Exception string

record drive_file =
  file_id :: string
  file_name :: string

text \<open>An object of the bucket: the Parquet encoding of a frame, or bytes that do not parse.\<close>

datatype s3_object = ParquetOf dataframe | NotParquet

record env =
  GOOGLE_FOLDER_ID :: "string option"
  SILVER_BUCKET :: "string option"
  SILVER_PREFIX :: string
  token_response :: "string + string"
  drive_listing :: "string \<Rightarrow> string \<Rightarrow> string + drive_file list"
  drive_content :: "string \<Rightarrow> string \<Rightarrow> string + string"
  csv_parse :: "string \<Rightarrow> string + dataframe"
  clean_fault :: "dataframe \<Rightarrow> string option"
  s3_get_fault :: "string \<Rightarrow> string option"
  s3_put_fault :: "string \<Rightarrow> dataframe \<Rightarrow> string option"
  stats :: pandas_stats

text \<open>
  What a run does, in order: the calls it makes (\<open>calls\<close>), the bucket, and the objects
  it has put (\<open>puts\<close>).
\<close>

datatype event =
    EvAuthenticate
  | EvList
  | EvDownload string
  | EvReadCsv string
  | EvClean string
  | EvLoad string
  | EvWrite string

record state =
  bucket :: "string \<Rightarrow> s3_object option"
  calls :: "event list"
  puts :: "(string \<times> dataframe) list"

definition called :: "event \<Rightarrow> state \<Rightarrow> state" where
  "called e s = s\<lparr>calls := calls s @ [e]\<rparr>"

text \<open>Python's truth value of an environment variable: unset and empty are false.\<close>

definition truthy :: "string option \<Rightarrow> bool" where
  "truthy v = (case v of None \<Rightarrow> False | Some t \<Rightarrow> t \<noteq> [])"

definition get_access_token :: "env \<Rightarrow> string + string" where
  "get_access_token e = token_response e"

definition list_csv_files :: "env \<Rightarrow> string \<Rightarrow> string \<Rightarrow> string + drive_file list" where
  "list_csv_files e folder_id access_token = drive_listing e folder_id access_token"

definition download_csv :: "env \<Rightarrow> string \<Rightarrow> string \<Rightarrow> string + string" where
  "download_csv e fid access_token = drive_content e fid access_token"

text \<open>\<open>pd.read_csv\<close> raises \<open>EmptyDataError\<close> rather than return a frame with no column.\<close>

definition read_csv :: "env \<Rightarrow> string \<Rightarrow> string + dataframe" where
  "read_csv e csv_text =
     (case csv_parse e csv_text of
        Inl x \<Rightarrow> Inl x
      | Inr df \<Rightarrow> if columns df = [] then Inl ''EmptyDataError'' else Inr df)"

text \<open>
  The body of the \<open>try\<close> of \<open>load_existing_parquet\<close>, lines 190 and 191:
  \<open>get_object\<close> raises \<open>NoSuchKey\<close> or another exception, and so may \<open>read_parquet\<close>.
\<close>

datatype load_error = NoSuchKey | OtherError string

definition get_and_read :: "env \<Rightarrow> (string \<Rightarrow> s3_object option) \<Rightarrow> string \<Rightarrow> load_error + dataframe" where
  "get_and_read e b key =
     (case s3_get_fault e key of
        Some x \<Rightarrow> Inl (OtherError x)
      | None \<Rightarrow>
          (case b key of
             None \<Rightarrow> Inl NoSuchKey
           | Some NotParquet \<Rightarrow> Inl (OtherError ''ArrowInvalid'')
           | Some (ParquetOf df) \<Rightarrow> Inr df))"

definition load_existing_parquet :: "env \<Rightarrow> (string \<Rightarrow> s3_object option) \<Rightarrow> string \<Rightarrow> dataframe" where
  "load_existing_parquet e b key =
     (case get_and_read e b key of
        Inr df \<Rightarrow> df
      | Inl NoSuchKey \<Rightarrow> empty_frame
      | Inl (OtherError x) \<Rightarrow> empty_frame)"

definition write_to_s3 :: "env \<Rightarrow> dataframe \<Rightarrow> string \<Rightarrow> state \<Rightarrow> (py_exception + unit) \<times> state" where
  "write_to_s3 e df key s =
     (let s1 = called (EvWrite key) s in
      case s3_put_fault e key df of
        Some x \<Rightarrow> (Inl (Exception x), s1)
      | None \<Rightarrow> (Inr (), s1\<lparr>bucket := (bucket s1)(key \<mapsto> ParquetOf df),
                              puts := puts s1 @ [(key, df)]\<rparr>))"

definition object_key :: "env \<Rightarrow> string \<Rightarrow> string" where
  "object_key e nm = SILVER_PREFIX e @ parquet_name nm"

text \<open>The body of the loop of \<open>main\<close>, lines 221 to 246.\<close>

definition process_file :: "env \<Rightarrow> string \<Rightarrow> drive_file \<Rightarrow> state \<Rightarrow> (py_exception + unit) \<times> state" where
  "process_file e access_token f s =
     (let s1 = called (EvDownload (file_id f)) s in
      case download_csv e (file_id f) access_token of
        Inl x \<Rightarrow> (Inl (Exception x), s1)
      | Inr csv_text \<Rightarrow>
          (let s2 = called (EvReadCsv (file_name f)) s1 in
           case read_csv e csv_text of
             Inl x \<Rightarrow> (Inl (Exception x), s2)
           | Inr df \<Rightarrow>
               (let s3 = called (EvClean (file_name f)) s2 in
                case clean_fault e df of
                  Some x \<Rightarrow> (Inl (Exception x), s3)
                | None \<Rightarrow>
                    (let df_new = clean_dataframe (stats e) df;
                         key = object_key e (file_name f);
                         s4 = called (EvLoad key) s3;
                         df_old = load_existing_parquet e (bucket s4) key;
                         df_final = merge_dedup df_old df_new
                     in write_to_s3 e df_final key s4))))"

fun process_files :: "env \<Rightarrow> string \<Rightarrow> drive_file list \<Rightarrow> state \<Rightarrow> (py_exception + unit) \<times> state" where
  "process_files e access_token [] s = (Inr (), s)"
| "process_files e access_token (f # fs) s =
     (case process_file e access_token f s of
        (Inl x, s') \<Rightarrow> (Inl x, s')
      | (Inr u, s') \<Rightarrow> process_files e access_token fs s')"

definition main :: "env \<Rightarrow> state \<Rightarrow> (py_exception + unit) \<times> state" where
  "main e s =
     (if \<not> truthy (GOOGLE_FOLDER_ID e) \<or> \<not> truthy (SILVER_BUCKET e) then (Inl (SystemExit 1), s)
      else
        (let s1 = called EvAuthenticate s in
         case get_access_token e of
           Inl x \<Rightarrow> (Inl (Exception x), s1)
         | Inr token \<Rightarrow>
             (let s2 = called EvList s1 in
              case list_csv_files e (case GOOGLE_FOLDER_ID e of Some v \<Rightarrow> v | None \<Rightarrow> []) token of
                Inl x \<Rightarrow> (Inl (Exception x), s2)
              | Inr files \<Rightarrow> process_files e token files s2)))"

text \<open>The calls one file makes when nothing raises.\<close>

definition file_calls :: "env \<Rightarrow> drive_file \<Rightarrow> event list" where
  "file_calls e f =
     [EvDownload (file_id f), EvReadCsv (file_name f), EvClean (file_name f),
      EvLoad (object_key e (file_name f)), EvWrite (object_key e (file_name f))]"

section \<open>The dashboard's query\<close>

text \<open>
  Athena as \<open>run_athena_query\<close> sees it: the state the \<open>n\<close>-th call of
  \<open>get_query_execution\<close> reports, and the rows \<open>get_query_results\<close> returns, each
  a list of cells that carry a \<open>VarCharValue\<close> or none.
\<close>

record athena =
  state_at :: "nat \<Rightarrow> string"
  result_rows :: "string option list list"

definition finished :: "string \<Rightarrow> bool" where
  "finished status = (status = ''SUCCEEDED'' \<or> status = ''FAILED'' \<or> status = ''CANCELLED'')"

text \<open>The polling loop of lines 25 to 29; it need not end.\<close>

partial_function (option) poll :: "(nat \<Rightarrow> string) \<Rightarrow> nat \<Rightarrow> (string \<times> nat) option" where
  "poll st n = (if finished (st n) then Some (st n, n) else poll st (Suc n))"

text \<open>
  \<open>pd.DataFrame(data, columns=headers)\<close> from a list of rows: the widest row decides
  the number of columns of the data, shorter rows are filled with None, and a number
  of columns other than that of \<open>headers\<close> is a \<open>ValueError\<close>.
\<close>

definition widest :: "'a list list \<Rightarrow> nat" where
  "widest data = fold max (map length data) 0"

definition to_cell :: "string option \<Rightarrow> cell" where
  "to_cell d = (case d of None \<Rightarrow> Null | Some v \<Rightarrow> Str v)"

definition DataFrame :: "string option list list \<Rightarrow> string list \<Rightarrow> py_exception + dataframe" where
  "DataFrame data headers =
     (if data \<noteq> [] \<and> widest data \<noteq> length headers then Inl (Exception ''ValueError'')
      else Inr \<lparr>columns = map (\<lambda>h. (h, Object)) headers,
                rows = map (\<lambda>r. map to_cell r @ replicate (length headers - length r) Null) data\<rparr>)"

fun header_values :: "string option list \<Rightarrow> py_exception + string list" where
  "header_values [] = Inr []"
| "header_values (None # cs) = Inl (Exception ''KeyError'')"
| "header_values (Some v # cs) =
     (case header_values cs of Inl x \<Rightarrow> Inl x | Inr vs \<Rightarrow> Inr (v # vs))"

text \<open>Lines 31 to 42, once the loop has ended with \<open>status\<close>.\<close>

definition query_result :: "athena \<Rightarrow> string \<Rightarrow> py_exception + dataframe" where
  "query_result a status =
     (if status \<noteq> ''SUCCEEDED'' then Inr empty_frame
      else (case result_rows a of
              [] \<Rightarrow> Inl (Exception ''IndexError'')
            | first # rest \<Rightarrow>
                (case header_values first of
                   Inl x \<Rightarrow> Inl x
                 | Inr headers \<Rightarrow> DataFrame rest headers)))"

definition run_athena_query :: "athena \<Rightarrow> (py_exception + dataframe) option" where
  "run_athena_query a =
     (case poll (state_at a) 0 of
        None \<Rightarrow> None
      | Some (status, n) \<Rightarrow> Some (query_result a status))"

section \<open>A world to run the pipeline in\<close>

text \<open>
  The statistics in exact arithmetic, as pandas documents its defaults: missing values are
  skipped, the median of an even number of values is the mean of the two in the middle,
  a quantile is interpolated linearly between the two nearest ranks, and the modes come
  sorted.
\<close>

definition numbers :: "cell list \<Rightarrow> rat list" where
  "numbers col = concat (map (\<lambda>c. case c of Num x \<Rightarrow> [x] | _ \<Rightarrow> []) col)"

definition strings :: "cell list \<Rightarrow> string list" where
  "strings col = concat (map (\<lambda>c. case c of Str v \<Rightarrow> [v] | _ \<Rightarrow> []) col)"

definition exact_median :: "cell list \<Rightarrow> rat option" where
  "exact_median col =
     (let xs = sort (numbers col); n = length xs in
      if n = 0 then None
      else if odd n then Some (xs ! (n div 2))
      else Some ((xs ! (n div 2 - 1) + xs ! (n div 2)) / 2))"

definition exact_quantile :: "cell list \<Rightarrow> rat \<Rightarrow> rat option" where
  "exact_quantile col q =
     (let xs = sort (numbers col); n = length xs in
      if n = 0 then None
      else (let pos = q * of_nat (n - 1);
                lo = nat \<lfloor>pos\<rfloor>;
                frac = pos - of_nat lo
            in if lo + 1 < n then Some (xs ! lo + (xs ! (lo + 1) - xs ! lo) * frac)
               else Some (xs ! (n - 1))))"

definition exact_mode :: "cell list \<Rightarrow> cell list" where
  "exact_mode col =
     (let vs = strings col;
          top = fold max (map (count_list vs) vs) 0
      in map Str (sort (remdups (filter (\<lambda>v. count_list vs v = top) vs))))"

definition exact_stats :: pandas_stats where
  "exact_stats = \<lparr>median = exact_median, mode = exact_mode, quantile = exact_quantile\<rparr>"

text \<open>
  Two files in the folder. The first is one of \<open>EXPECTED_FILES\<close> and the bucket holds
  a frame under its key; the second is new. Nothing raises.
\<close>

definition penalties_csv :: dataframe where
  "penalties_csv =
     \<lparr>columns = [(''state'', Object), (''fine'', Numeric)],
      rows = [[Str ''TX'', Num 10], [Str ''TX'', Num 10], [Str ''CA'', Null], [Str ''NY'', Num 12]]\<rparr>"

definition penalties_stored :: dataframe where
  "penalties_stored =
     \<lparr>columns = [(''state'', Object), (''fine'', Numeric)],
      rows = [[Str ''TX'', Num 10], [Str ''FL'', Num 7]]\<rparr>"

definition extra_csv :: dataframe where
  "extra_csv = \<lparr>columns = [(''name'', Object)], rows = [[Str ''a''], [Null], [Str ''a'']]\<rparr>"

definition demo_files :: "drive_file list" where
  "demo_files =
     [\<lparr>file_id = ''1'', file_name = ''NH_Penalties_Oct2024.csv''\<rparr>,
      \<lparr>file_id = ''2'', file_name = ''Extra.CSV''\<rparr>]"

definition demo_env :: env where
  "demo_env =
     \<lparr>GOOGLE_FOLDER_ID = Some ''folder'',
      SILVER_BUCKET = Some ''silver'',
      SILVER_PREFIX = ''datasets/'',
      token_response = Inr ''token'',
      drive_listing = (\<lambda>folder_id access_token. Inr demo_files),
      drive_content = (\<lambda>fid access_token.
         if fid = ''1'' then Inr ''penalties'' else if fid = ''2'' then Inr ''extra''
         else Inl ''HTTPError''),
      csv_parse = (\<lambda>csv_text.
         if csv_text = ''penalties'' then Inr penalties_csv
         else if csv_text = ''extra'' then Inr extra_csv else Inl ''ParserError''),
      clean_fault = (\<lambda>df. None),
      s3_get_fault = (\<lambda>key. None),
      s3_put_fault = (\<lambda>key df. None),
      stats = exact_stats\<rparr>"

definition demo_state :: state where
  "demo_state =
     \<lparr>bucket = (\<lambda>key. if key = ''datasets/nh_penalties_oct2024_parquet''
                       then Some (ParquetOf penalties_stored) else None),
      calls = [],
      puts = []\<rparr>"

text \<open>The same folder after the first file's header was renamed from \<open>state\<close> to \<open>st\<close>.\<close>

definition renamed_csv :: dataframe where
  "renamed_csv =
     \<lparr>columns = [(''st'', Object), (''fine'', Numeric)], rows = [[Str ''TX'', Num 10]]\<rparr>"

definition renamed_env :: env where
  "renamed_env = demo_env\<lparr>csv_parse := (\<lambda>csv_text. Inr renamed_csv)\<rparr>"

text \<open>The bucket after a run over the first file, before the same file comes again.\<close>

definition penalties_merged :: dataframe where
  "penalties_merged =
     \<lparr>columns = [(''state'', Object), (''fine'', Numeric)],
      rows = [[Str ''TX'', Num 10], [Str ''FL'', Num 7], [Str ''CA'', Num 10], [Str ''NY'', Num 12]]\<rparr>"

definition synced_state :: state where
  "synced_state =
     \<lparr>bucket = (\<lambda>key. if key = ''datasets/nh_penalties_oct2024_parquet''
                       then Some (ParquetOf penalties_merged) else None),
      calls = [],
      puts = []\<rparr>"

text \<open>
  A folder of three files where the download of the second fails, and the same world with
  one of the two required variables unset or empty.
\<close>

definition three_files :: "drive_file list" where
  "three_files = demo_files @ [\<lparr>file_id = ''3'', file_name = ''third.csv''\<rparr>]"

definition failing_env :: env where
  "failing_env =
     demo_env\<lparr>drive_listing := (\<lambda>folder_id access_token. Inr three_files),
              drive_content := (\<lambda>fid access_token.
                 if fid = ''1'' then Inr ''penalties'' else Inl ''HTTPError'')\<rparr>"

definition unset_env :: env where
  "unset_env = demo_env\<lparr>GOOGLE_FOLDER_ID := None\<rparr>"

definition blank_env :: env where
  "blank_env = demo_env\<lparr>SILVER_BUCKET := Some []\<rparr>"

text \<open>A world where S3 refuses every read, and a bucket whose objects are not Parquet.\<close>

definition denied_env :: env where
  "denied_env = demo_env\<lparr>s3_get_fault := (\<lambda>key. Some ''AccessDenied'')\<rparr>"

definition broken_bucket :: "string \<Rightarrow> s3_object option" where
  "broken_bucket = (\<lambda>key. Some NotParquet)"

text \<open>The invariant of the bucket: no stored frame has a duplicate row.\<close>

definition dedup_store :: "(string \<Rightarrow> s3_object option) \<Rightarrow> bool" where
  "dedup_store b = (\<forall>k d. b k = Some (ParquetOf d) \<longrightarrow> distinct (rows d))"

text \<open>
  Three queries: one that succeeds with a header and two rows, one that fails, and a
  statement that succeeds with no result row, as Athena answers a DDL statement.
\<close>

definition demo_athena :: athena where
  "demo_athena =
     \<lparr>state_at = (\<lambda>n. if n < 2 then ''RUNNING'' else ''SUCCEEDED''),
      result_rows = [[Some ''state'', Some ''avg_beds''],
                     [Some ''TX'', Some ''101.5''],
                     [Some ''CA'', None]]\<rparr>"

definition failed_athena :: athena where
  "failed_athena =
     \<lparr>state_at = (\<lambda>n. if n < 1 then ''QUEUED'' else ''FAILED''), result_rows = []\<rparr>"

definition ddl_athena :: athena where
  "ddl_athena =
     \<lparr>state_at = (\<lambda>n. if n < 2 then ''RUNNING'' else ''SUCCEEDED''), result_rows = []\<rparr>"

text \<open>A numeric column with one value far from the others.\<close>

definition outlier_csv :: dataframe where
  "outlier_csv =
     \<lparr>columns = [(''x'', Numeric)], rows = [[Num 1], [Num 2], [Num 3], [Num 4], [Num 100]]\<rparr>"

section \<open>Rows, duplicates and concatenation\<close>

lemma boolean_index_map: "boolean_index xs (map P xs) = filter P xs"
  unfolding boolean_index_def by (induction xs) auto

lemma boolean_index_not_isin:
  "boolean_index xs (map Not (isin xs ys)) = filter (\<lambda>r. r \<notin> set ys) xs"
  unfolding isin_def by (simp add: boolean_index_map [symmetric] comp_def)

lemma length_duplicated_from: "length (duplicated_from seen rs) = length rs"
  by (induction rs arbitrary: seen) auto

lemma keep_first_from:
  "boolean_index rs (map Not (duplicated_from seen rs))
     = filter (\<lambda>r. r \<notin> set seen) (first_occurrences rs)"
proof (induction rs arbitrary: seen)
  case Nil
  then show ?case by (simp add: boolean_index_def)
next
  case (Cons r rs)
  have "boolean_index (r # rs) (map Not (duplicated_from seen (r # rs)))
        = (if r \<in> set seen then [] else [r])
          @ boolean_index rs (map Not (duplicated_from (r # seen) rs))"
    by (simp add: boolean_index_def)
  also have "\<dots> = (if r \<in> set seen then [] else [r])
          @ filter (\<lambda>y. y \<notin> set (r # seen)) (first_occurrences rs)"
    by (simp only: Cons.IH)
  also have "\<dots> = filter (\<lambda>y. y \<notin> set seen) (first_occurrences (r # rs))"
    by (auto intro: filter_cong)
  finally show ?case .
qed

lemma keep_first: "boolean_index rs (map Not (duplicated_from [] rs)) = first_occurrences rs"
  by (simp add: keep_first_from)

lemma set_first_occurrences: "set (first_occurrences xs) = set xs"
  by (induction xs) auto

lemma distinct_first_occurrences: "distinct (first_occurrences xs)"
  by (induction xs) (auto simp: set_first_occurrences)

lemma first_occurrences_distinct: "distinct xs \<Longrightarrow> first_occurrences xs = xs"
  by (induction xs) (auto simp: filter_id_conv set_first_occurrences)

lemma first_occurrences_append:
  "first_occurrences (xs @ ys) = first_occurrences xs @ filter (\<lambda>y. y \<notin> set xs) (first_occurrences ys)"
  by (induction xs) (auto intro: filter_cong)

lemma first_occurrences_idem: "first_occurrences (first_occurrences xs) = first_occurrences xs"
  by (simp add: first_occurrences_distinct distinct_first_occurrences)

lemma rows_drop_duplicates:
  "rows (drop_duplicates df) = (if is_empty df then rows df else first_occurrences (rows df))"
  by (simp add: drop_duplicates_def duplicated_def keep_first)

lemma columns_drop_duplicates: "columns (drop_duplicates df) = columns df"
  by (simp add: drop_duplicates_def)

lemma drop_duplicates_eq:
  "columns df \<noteq> [] \<Longrightarrow> drop_duplicates df = df\<lparr>rows := first_occurrences (rows df)\<rparr>"
  by (cases "rows df = []") (simp_all add: drop_duplicates_def duplicated_def keep_first is_empty_def)

lemma distinct_rows_drop_duplicates:
  "columns df \<noteq> [] \<Longrightarrow> distinct (rows (drop_duplicates df))"
  by (simp add: drop_duplicates_eq distinct_first_occurrences)

lemma rows_concat_same_labels:
  "labels a = labels b \<Longrightarrow> rows (concat_frames a b) = rows a @ rows b"
  by (simp add: concat_frames_def Let_def)

lemma map_fst_joined:
  "length xs = length ys \<Longrightarrow>
   map fst (map (\<lambda>((l, t), (_, u)). (l, j t u)) (zip xs ys)) = map fst xs"
  by (induction xs ys rule: list_induct2) auto

lemma zip_keep_first:
  "length xs = length ys \<Longrightarrow> map (\<lambda>((l, t), (_, u)). (l, t)) (zip xs ys) = xs"
  by (induction xs ys rule: list_induct2) auto

lemma labels_concat_same_labels:
  assumes "labels a = labels b"
  shows "labels (concat_frames a b) = labels a"
proof -
  have len: "length (columns a) = length (columns b)"
    using assms unfolding labels_def by (metis length_map)
  have "columns (concat_frames a b)
          = map (\<lambda>((l, t), (_, u)). (l, joined_dtype (rows a \<noteq> []) (rows b \<noteq> []) t u))
              (zip (columns a) (columns b))"
    using assms by (simp add: concat_frames_def Let_def)
  then have "labels (concat_frames a b)
          = map fst (map (\<lambda>((l, t), (_, u)). (l, joined_dtype (rows a \<noteq> []) (rows b \<noteq> []) t u))
              (zip (columns a) (columns b)))"
    by (simp only: labels_def)
  also have "\<dots> = map fst (columns a)" using len by (rule map_fst_joined)
  finally show ?thesis by (simp only: labels_def)
qed

lemma concat_rowless:
  assumes "labels a = labels b" and "rows a \<noteq> []" and "rows b = []"
  shows "concat_frames a b = a"
proof -
  have len: "length (columns a) = length (columns b)"
    using assms(1) unfolding labels_def by (metis length_map)
  have "joined_dtype True False = (\<lambda>t u. t)" by (simp add: joined_dtype_def fun_eq_iff)
  then have "concat_frames a b
        = \<lparr>columns = map (\<lambda>((l, t), (_, u)). (l, t)) (zip (columns a) (columns b)), rows = rows a\<rparr>"
    using assms by (simp add: concat_frames_def Let_def)
  then show ?thesis using len by (simp add: zip_keep_first)
qed

lemma concat_not_empty:
  assumes "\<not> is_empty a"
  shows "\<not> is_empty (concat_frames a b)"
proof (cases "labels a = labels b")
  case True
  then have "labels (concat_frames a b) = labels a" by (rule labels_concat_same_labels)
  moreover have "labels a \<noteq> []" using assms by (simp add: is_empty_def labels_def)
  ultimately have "columns (concat_frames a b) \<noteq> []" by (auto simp: labels_def)
  moreover have "rows (concat_frames a b) \<noteq> []"
    using assms True by (simp add: rows_concat_same_labels is_empty_def)
  ultimately show ?thesis by (simp add: is_empty_def)
next
  case False
  then show ?thesis using assms
    by (auto simp: concat_frames_def is_empty_def Let_def union_columns_def)
qed

lemma drop_duplicates_distinct:
  "distinct (rows df) \<Longrightarrow> drop_duplicates df = df"
  by (cases "is_empty df")
     (simp_all add: drop_duplicates_def duplicated_def keep_first first_occurrences_distinct)

lemma merge_dedup_fresh: "is_empty old \<Longrightarrow> merge_dedup old new = drop_duplicates new"
  by (simp add: merge_dedup_def)

lemma merge_dedup_stored:
  "\<not> is_empty old \<Longrightarrow>
   merge_dedup old new
     = drop_duplicates (concat_frames old (new\<lparr>rows := filter (\<lambda>r. r \<notin> set (rows old)) (rows new)\<rparr>))"
  by (simp add: merge_dedup_def boolean_index_not_isin)

lemma rows_merge_dedup_stored:
  assumes "\<not> is_empty old" and "labels new = labels old"
  shows "rows (merge_dedup old new)
          = first_occurrences (rows old @ filter (\<lambda>r. r \<notin> set (rows old)) (rows new))"
proof -
  let ?kept = "new\<lparr>rows := filter (\<lambda>r. r \<notin> set (rows old)) (rows new)\<rparr>"
  have l: "labels old = labels ?kept" using assms(2) by (simp add: labels_def)
  have "\<not> is_empty (concat_frames old ?kept)" using assms(1) by (rule concat_not_empty)
  then have "rows (merge_dedup old new) = first_occurrences (rows (concat_frames old ?kept))"
    using assms(1) by (simp add: merge_dedup_stored rows_drop_duplicates)
  then show ?thesis using l by (simp add: rows_concat_same_labels)
qed

lemma labels_merge_dedup_stored:
  assumes "\<not> is_empty old" and "labels new = labels old"
  shows "labels (merge_dedup old new) = labels old"
proof -
  let ?kept = "new\<lparr>rows := filter (\<lambda>r. r \<notin> set (rows old)) (rows new)\<rparr>"
  have l: "labels old = labels ?kept" using assms(2) by (simp add: labels_def)
  show ?thesis using assms(1) labels_concat_same_labels [OF l]
    by (simp add: merge_dedup_stored labels_def columns_drop_duplicates)
qed


lemma merge_dedup_nothing_new:
  assumes "\<not> is_empty old" and "distinct (rows old)" and "set (rows new) \<subseteq> set (rows old)"
    and "labels new = labels old"
  shows "merge_dedup old new = old"
proof -
  let ?kept = "new\<lparr>rows := filter (\<lambda>r. r \<notin> set (rows old)) (rows new)\<rparr>"
  have none: "rows ?kept = []" using assms(3) by (auto simp: filter_empty_conv)
  have l: "labels old = labels ?kept" using assms(4) by (simp add: labels_def)
  have r: "rows old \<noteq> []" using assms(1) by (simp add: is_empty_def)
  have "concat_frames old ?kept = old" using l r none by (rule concat_rowless)
  then show ?thesis using assms(1,2) by (simp add: merge_dedup_stored drop_duplicates_distinct)
qed

lemma load_stored:
  "s3_get_fault e key = None \<Longrightarrow> b key = Some (ParquetOf old) \<Longrightarrow>
   load_existing_parquet e b key = old"
  by (simp add: load_existing_parquet_def get_and_read_def)

lemma load_failed:
  "s3_get_fault e key \<noteq> None \<or> b key = None \<or> b key = Some NotParquet \<Longrightarrow>
   load_existing_parquet e b key = empty_frame"
  by (auto simp: load_existing_parquet_def get_and_read_def split: option.splits)

lemma empty_frame_is_empty: "is_empty empty_frame"
  by (simp add: is_empty_def empty_frame_def)

lemma process_file_success:
  assumes "process_file e tok f s = (Inr u, s')"
  shows "\<exists>csv_text df.
           download_csv e (file_id f) tok = Inr csv_text \<and> read_csv e csv_text = Inr df \<and>
           clean_fault e df = None \<and>
           s' = s\<lparr>bucket := (bucket s)(object_key e (file_name f) \<mapsto>
                       ParquetOf (merge_dedup (load_existing_parquet e (bucket s) (object_key e (file_name f)))
                                              (clean_dataframe (stats e) df))),
                  calls := calls s @ file_calls e f,
                  puts := puts s @ [(object_key e (file_name f),
                       merge_dedup (load_existing_parquet e (bucket s) (object_key e (file_name f)))
                                   (clean_dataframe (stats e) df))]\<rparr>"
  using assms
  by (auto simp: process_file_def write_to_s3_def called_def file_calls_def Let_def
           split: sum.splits option.splits)


lemma process_file_upload:
  assumes run: "process_file e tok f s = (Inr u, s')"
    and dl: "download_csv e (file_id f) tok = Inr csv_text"
    and rd: "read_csv e csv_text = Inr df"
  shows "puts s' = puts s @ [(object_key e (file_name f),
            merge_dedup (load_existing_parquet e (bucket s) (object_key e (file_name f)))
                        (clean_dataframe (stats e) df))]"
    and "bucket s' = (bucket s)(object_key e (file_name f) \<mapsto>
            ParquetOf (merge_dedup (load_existing_parquet e (bucket s) (object_key e (file_name f)))
                                   (clean_dataframe (stats e) df)))"
proof -
  from process_file_success [OF run] obtain csv_text' df' where
    a: "download_csv e (file_id f) tok = Inr csv_text'" and b: "read_csv e csv_text' = Inr df'"
    and s': "s' = s\<lparr>bucket := (bucket s)(object_key e (file_name f) \<mapsto>
                       ParquetOf (merge_dedup (load_existing_parquet e (bucket s) (object_key e (file_name f)))
                                              (clean_dataframe (stats e) df'))),
                  calls := calls s @ file_calls e f,
                  puts := puts s @ [(object_key e (file_name f),
                       merge_dedup (load_existing_parquet e (bucket s) (object_key e (file_name f)))
                                   (clean_dataframe (stats e) df'))]\<rparr>"
    by blast
  from a dl have "csv_text' = csv_text" by simp
  with b rd have d: "df' = df" by simp
  show "puts s' = puts s @ [(object_key e (file_name f),
            merge_dedup (load_existing_parquet e (bucket s) (object_key e (file_name f)))
                        (clean_dataframe (stats e) df))]"
    using s' d by simp
  show "bucket s' = (bucket s)(object_key e (file_name f) \<mapsto>
            ParquetOf (merge_dedup (load_existing_parquet e (bucket s) (object_key e (file_name f)))
                                   (clean_dataframe (stats e) df)))"
    using s' d by simp
qed

section \<open>The merge with the stored frame, file by file\<close>

text \<open>
  C1, amended. A file that \<open>main\<close> processes to the end puts one object under its key.
  When the key holds a frame that is not empty and the read of it succeeds, the object is
  the deduplicated concatenation of the stored frame and the rows of the cleaned new frame
  that do not occur, as whole tuples, among the stored rows; with equal labels its rows
  are the first occurrences in the stored rows followed by the remaining new rows. When
  the stored frame is empty, the key is missing, or the read or the parse of the stored
  object fails, the object is the cleaned new frame with duplicates dropped.
\<close>

theorem merge_dedup_upload:
  assumes run: "process_file e tok f s = (Inr u, s')"
    and dl: "download_csv e (file_id f) tok = Inr csv_text"
    and rd: "read_csv e csv_text = Inr df"
    and new: "new = clean_dataframe (stats e) df"
    and key: "key = object_key e (file_name f)"
  shows "\<exists>up. puts s' = puts s @ [(key, up)] \<and> bucket s' key = Some (ParquetOf up) \<and>
           (s3_get_fault e key = None \<and> bucket s key = Some (ParquetOf old) \<and> \<not> is_empty old \<longrightarrow>
              up = drop_duplicates (concat_frames old
                     (new\<lparr>rows := filter (\<lambda>r. r \<notin> set (rows old)) (rows new)\<rparr>)) \<and>
              (labels new = labels old \<longrightarrow>
                 labels up = labels old \<and>
                 rows up = first_occurrences
                             (rows old @ filter (\<lambda>r. r \<notin> set (rows old)) (rows new)))) \<and>
           (s3_get_fault e key = None \<and> bucket s key = Some (ParquetOf old) \<and> is_empty old \<longrightarrow>
              up = drop_duplicates new) \<and>
           (s3_get_fault e key \<noteq> None \<or> bucket s key = None \<or> bucket s key = Some NotParquet \<longrightarrow>
              up = drop_duplicates new)"
proof -
  let ?up = "merge_dedup (load_existing_parquet e (bucket s) key) new"
  from process_file_upload [OF run dl rd] new key
  have p: "puts s' = puts s @ [(key, ?up)]" and q: "bucket s' key = Some (ParquetOf ?up)"
    by simp_all
  have a: "?up = drop_duplicates (concat_frames old
                     (new\<lparr>rows := filter (\<lambda>r. r \<notin> set (rows old)) (rows new)\<rparr>))"
    if "s3_get_fault e key = None \<and> bucket s key = Some (ParquetOf old) \<and> \<not> is_empty old"
    using that by (simp add: load_stored merge_dedup_stored)
  have b: "labels ?up = labels old \<and>
           rows ?up = first_occurrences (rows old @ filter (\<lambda>r. r \<notin> set (rows old)) (rows new))"
    if "s3_get_fault e key = None \<and> bucket s key = Some (ParquetOf old) \<and> \<not> is_empty old"
      and "labels new = labels old"
    using that by (simp add: load_stored labels_merge_dedup_stored rows_merge_dedup_stored)
  have c: "?up = drop_duplicates new"
    if "s3_get_fault e key = None \<and> bucket s key = Some (ParquetOf old) \<and> is_empty old"
    using that by (simp add: load_stored merge_dedup_fresh)
  have d: "?up = drop_duplicates new"
    if "s3_get_fault e key \<noteq> None \<or> bucket s key = None \<or> bucket s key = Some NotParquet"
    using load_failed [of e key "bucket s", OF that]
    by (simp add: merge_dedup_fresh empty_frame_is_empty)
  from p q a b c d show ?thesis by blast
qed

theorem merge_dedup_upload_witness:
  "(\<exists>up. puts (snd (process_file demo_env ''token'' (demo_files ! 0) demo_state))
            = [(''datasets/nh_penalties_oct2024_parquet'', up)] \<and>
          rows up = [[Str ''TX'', Num 10], [Str ''FL'', Num 7], [Str ''CA'', Num 10], [Str ''NY'', Num 12]])
   \<and> (\<exists>up. puts (snd (process_file demo_env ''token'' (demo_files ! 1) demo_state))
            = [(''datasets/extra_parquet'', up)] \<and>
          up = \<lparr>columns = [(''name'', Object)], rows = [[Str ''a'']]\<rparr>)"
proof
  let ?f = "demo_files ! 0"
  let ?k = "''datasets/nh_penalties_oct2024_parquet''"
  let ?s' = "snd (process_file demo_env ''token'' ?f demo_state)"
  let ?new = "\<lparr>columns = [(''state'', Object), (''fine'', Numeric)],
               rows = [[Str ''TX'', Num 10], [Str ''CA'', Num 10], [Str ''NY'', Num 12]]\<rparr>"
  have "fst (process_file demo_env ''token'' ?f demo_state) = Inr ()" by code_simp
  then have run: "process_file demo_env ''token'' ?f demo_state = (Inr (), ?s')"
    by (simp add: prod_eq_iff)
  have dl: "download_csv demo_env (file_id ?f) ''token'' = Inr ''penalties''" by code_simp
  have rd: "read_csv demo_env ''penalties'' = Inr penalties_csv" by code_simp
  have new: "?new = clean_dataframe (stats demo_env) penalties_csv" by code_simp
  have key: "?k = object_key demo_env (file_name ?f)" by code_simp
  have ok: "s3_get_fault demo_env ?k = None" by (simp add: demo_env_def)
  have old: "bucket demo_state ?k = Some (ParquetOf penalties_stored)" by (simp add: demo_state_def)
  have ne: "\<not> is_empty penalties_stored" by code_simp
  have lb: "labels ?new = labels penalties_stored" by code_simp
  have ev: "first_occurrences (rows penalties_stored @
               filter (\<lambda>r. r \<notin> set (rows penalties_stored)) (rows ?new))
            = [[Str ''TX'', Num 10], [Str ''FL'', Num 7], [Str ''CA'', Num 10], [Str ''NY'', Num 12]]"
    by code_simp
  have ps: "puts demo_state = []" by code_simp
  from merge_dedup_upload [OF run dl rd new key, of penalties_stored] ok old ne lb
  obtain up where "puts ?s' = puts demo_state @ [(?k, up)]"
    and "rows up = first_occurrences (rows penalties_stored @
               filter (\<lambda>r. r \<notin> set (rows penalties_stored)) (rows ?new))"
    by blast
  then have "puts ?s' = [(?k, up)] \<and>
          rows up = [[Str ''TX'', Num 10], [Str ''FL'', Num 7], [Str ''CA'', Num 10], [Str ''NY'', Num 12]]"
    by (simp only: ps ev append.simps)
  then show "\<exists>up. puts ?s' = [(?k, up)] \<and>
          rows up = [[Str ''TX'', Num 10], [Str ''FL'', Num 7], [Str ''CA'', Num 10], [Str ''NY'', Num 12]]"
    by blast
next
  let ?f = "demo_files ! 1"
  let ?k = "''datasets/extra_parquet''"
  let ?s' = "snd (process_file demo_env ''token'' ?f demo_state)"
  let ?new = "\<lparr>columns = [(''name'', Object)], rows = [[Str ''a'']]\<rparr>"
  have "fst (process_file demo_env ''token'' ?f demo_state) = Inr ()" by code_simp
  then have run: "process_file demo_env ''token'' ?f demo_state = (Inr (), ?s')"
    by (simp add: prod_eq_iff)
  have dl: "download_csv demo_env (file_id ?f) ''token'' = Inr ''extra''" by code_simp
  have rd: "read_csv demo_env ''extra'' = Inr extra_csv" by code_simp
  have new: "?new = clean_dataframe (stats demo_env) extra_csv" by code_simp
  have key: "?k = object_key demo_env (file_name ?f)" by code_simp
  have missing: "bucket demo_state ?k = None" by (simp add: demo_state_def)
  have ev: "drop_duplicates ?new = ?new" by code_simp
  have ps: "puts demo_state = []" by code_simp
  from merge_dedup_upload [OF run dl rd new key, of empty_frame] missing
  obtain up where "puts ?s' = puts demo_state @ [(?k, up)]"
    and "up = drop_duplicates ?new"
    by blast
  then have "puts ?s' = [(?k, up)] \<and> up = ?new"
    by (simp only: ps ev append.simps)
  then show "\<exists>up. puts ?s' = [(?k, up)] \<and> up = ?new"
    by blast
qed

text \<open>
  C1 as stated fails when the key holds a frame and S3 refuses the read: the run completes
  and the object put holds the new rows only, so the stored row of FL is lost.
\<close>

theorem refused_read_loses_stored_rows_counterexample:
  "bucket demo_state ''datasets/nh_penalties_oct2024_parquet'' = Some (ParquetOf penalties_stored)
   \<and> \<not> is_empty penalties_stored
   \<and> fst (process_file denied_env ''token'' (demo_files ! 0) demo_state) = Inr ()
   \<and> puts (snd (process_file denied_env ''token'' (demo_files ! 0) demo_state))
       = [(''datasets/nh_penalties_oct2024_parquet'',
           \<lparr>columns = [(''state'', Object), (''fine'', Numeric)],
            rows = [[Str ''TX'', Num 10], [Str ''CA'', Num 10], [Str ''NY'', Num 12]]\<rparr>)]
   \<and> [Str ''FL'', Num 7] \<in> set (rows penalties_stored)
   \<and> [Str ''FL'', Num 7] \<notin> set [[Str ''TX'', Num 10], [Str ''CA'', Num 10], [Str ''NY'', Num 12]]"
  by (intro conjI; code_simp)

text \<open>
  C3, amended. When every row of the cleaned new frame occurs in the frame the key holds,
  that frame is not empty, has no duplicate row and is read successfully, and both frames
  carry the same labels, the object put is the stored frame and the bucket is as before.
\<close>

theorem reupload_changes_nothing:
  assumes run: "process_file e tok f s = (Inr u, s')"
    and dl: "download_csv e (file_id f) tok = Inr csv_text"
    and rd: "read_csv e csv_text = Inr df"
    and new: "new = clean_dataframe (stats e) df"
    and key: "key = object_key e (file_name f)"
    and ok: "s3_get_fault e key = None"
    and old: "bucket s key = Some (ParquetOf old)"
    and ne: "\<not> is_empty old"
    and dist: "distinct (rows old)"
    and sub: "set (rows new) \<subseteq> set (rows old)"
    and lab: "labels new = labels old"
  shows "puts s' = puts s @ [(key, old)] \<and> bucket s' = bucket s"
proof -
  have l: "load_existing_parquet e (bucket s) key = old" using ok old by (rule load_stored)
  have m: "merge_dedup old new = old" using ne dist sub lab by (rule merge_dedup_nothing_new)
  from process_file_upload [OF run dl rd] new key l m
  have p: "puts s' = puts s @ [(key, old)]" and q: "bucket s' = (bucket s)(key \<mapsto> ParquetOf old)"
    by simp_all
  from q old have "bucket s' = bucket s" by (simp add: fun_upd_idem)
  with p show ?thesis by simp
qed

text \<open>
  C3 as stated fails when the labels differ (the row of the renamed file occurs in the
  stored frame, and the object put has a third column of missing values) and when S3
  refuses the read (the object put holds the new rows only).
\<close>

theorem reupload_other_labels_counterexample:
  "fst (process_file renamed_env ''token'' (demo_files ! 0) demo_state) = Inr ()
   \<and> s3_get_fault renamed_env ''datasets/nh_penalties_oct2024_parquet'' = None
   \<and> bucket demo_state ''datasets/nh_penalties_oct2024_parquet'' = Some (ParquetOf penalties_stored)
   \<and> \<not> is_empty penalties_stored
   \<and> distinct (rows penalties_stored)
   \<and> set (rows (clean_dataframe (stats renamed_env) renamed_csv)) \<subseteq> set (rows penalties_stored)
   \<and> puts (snd (process_file renamed_env ''token'' (demo_files ! 0) demo_state))
       = [(''datasets/nh_penalties_oct2024_parquet'',
           \<lparr>columns = [(''state'', Object), (''fine'', Numeric), (''st'', Object)],
            rows = [[Str ''TX'', Num 10, Null], [Str ''FL'', Num 7, Null]]\<rparr>)]
   \<and> \<lparr>columns = [(''state'', Object), (''fine'', Numeric), (''st'', Object)],
       rows = [[Str ''TX'', Num 10, Null], [Str ''FL'', Num 7, Null]]\<rparr> \<noteq> penalties_stored
   \<and> fst (process_file denied_env ''token'' (demo_files ! 0) synced_state) = Inr ()
   \<and> bucket synced_state ''datasets/nh_penalties_oct2024_parquet'' = Some (ParquetOf penalties_merged)
   \<and> \<not> is_empty penalties_merged
   \<and> distinct (rows penalties_merged)
   \<and> set (rows (clean_dataframe (stats denied_env) penalties_csv)) \<subseteq> set (rows penalties_merged)
   \<and> puts (snd (process_file denied_env ''token'' (demo_files ! 0) synced_state))
       = [(''datasets/nh_penalties_oct2024_parquet'',
           \<lparr>columns = [(''state'', Object), (''fine'', Numeric)],
            rows = [[Str ''TX'', Num 10], [Str ''CA'', Num 10], [Str ''NY'', Num 12]]\<rparr>)]
   \<and> \<lparr>columns = [(''state'', Object), (''fine'', Numeric)],
       rows = [[Str ''TX'', Num 10], [Str ''CA'', Num 10], [Str ''NY'', Num 12]]\<rparr> \<noteq> penalties_merged"
  by (intro conjI; code_simp)

theorem reupload_changes_nothing_witness:
  "puts (snd (process_file demo_env ''token'' (demo_files ! 0) synced_state))
     = [(''datasets/nh_penalties_oct2024_parquet'', penalties_merged)]
   \<and> bucket (snd (process_file demo_env ''token'' (demo_files ! 0) synced_state)) = bucket synced_state"
proof -
  let ?f = "demo_files ! 0"
  let ?k = "''datasets/nh_penalties_oct2024_parquet''"
  let ?s' = "snd (process_file demo_env ''token'' ?f synced_state)"
  let ?new = "\<lparr>columns = [(''state'', Object), (''fine'', Numeric)],
               rows = [[Str ''TX'', Num 10], [Str ''CA'', Num 10], [Str ''NY'', Num 12]]\<rparr>"
  have "fst (process_file demo_env ''token'' ?f synced_state) = Inr ()" by code_simp
  then have run: "process_file demo_env ''token'' ?f synced_state = (Inr (), ?s')"
    by (simp add: prod_eq_iff)
  have dl: "download_csv demo_env (file_id ?f) ''token'' = Inr ''penalties''" by code_simp
  have rd: "read_csv demo_env ''penalties'' = Inr penalties_csv" by code_simp
  have new: "?new = clean_dataframe (stats demo_env) penalties_csv" by code_simp
  have key: "?k = object_key demo_env (file_name ?f)" by code_simp
  have ok: "s3_get_fault demo_env ?k = None" by (simp add: demo_env_def)
  have old: "bucket synced_state ?k = Some (ParquetOf penalties_merged)"
    by (simp add: synced_state_def)
  have ne: "\<not> is_empty penalties_merged" by code_simp
  have dist: "distinct (rows penalties_merged)" by code_simp
  have sub: "set (rows ?new) \<subseteq> set (rows penalties_merged)" by code_simp
  have lab: "labels ?new = labels penalties_merged" by code_simp
  have ps: "puts synced_state = []" by code_simp
  from reupload_changes_nothing [OF run dl rd new key ok old ne dist sub lab]
  show ?thesis by (simp only: ps append.simps)
qed

section \<open>The run of main\<close>

lemma process_files_success:
  "process_files e tok fs s = (Inr u, s') \<Longrightarrow>
   calls s' = calls s @ concat (map (file_calls e) fs) \<and>
   map fst (puts s') = map fst (puts s) @ map (\<lambda>f. object_key e (file_name f)) fs"
proof (induction fs arbitrary: s)
  case Nil
  then show ?case by simp
next
  case (Cons f fs)
  from Cons.prems obtain s1 where
    one: "process_file e tok f s = (Inr (), s1)" and rest: "process_files e tok fs s1 = (Inr u, s')"
    by (auto split: prod.splits sum.splits)
  from process_file_success [OF one]
  have c: "calls s1 = calls s @ file_calls e f"
    and p: "map fst (puts s1) = map fst (puts s) @ [object_key e (file_name f)]"
    by auto
  from Cons.IH [OF rest] c p show ?case by simp
qed

lemma process_files_append:
  "process_files e tok (pre @ post) s =
     (case process_files e tok pre s of
        (Inl x, s1) \<Rightarrow> (Inl x, s1)
      | (Inr u, s1) \<Rightarrow> process_files e tok post s1)"
  by (induction pre arbitrary: s) (auto split: prod.splits sum.splits)

lemma process_files_abort:
  assumes "process_files e tok pre s = (Inr u, s1)" and "process_file e tok f s1 = (Inl x, s2)"
  shows "process_files e tok (pre @ f # post) s = (Inl x, s2)"
  using assms by (simp add: process_files_append)

lemma main_ready:
  assumes "truthy (GOOGLE_FOLDER_ID e)" and "truthy (SILVER_BUCKET e)"
  shows "main e s =
     (case get_access_token e of
        Inl x \<Rightarrow> (Inl (Exception x), called EvAuthenticate s)
      | Inr token \<Rightarrow>
          (case list_csv_files e (case GOOGLE_FOLDER_ID e of Some v \<Rightarrow> v | None \<Rightarrow> []) token of
             Inl x \<Rightarrow> (Inl (Exception x), called EvList (called EvAuthenticate s))
           | Inr files \<Rightarrow> process_files e token files (called EvList (called EvAuthenticate s))))"
  using assms by (simp add: main_def Let_def split: sum.splits)

lemma main_success:
  assumes "main e s = (Inr u, s')"
  shows "\<exists>tok files. truthy (GOOGLE_FOLDER_ID e) \<and> truthy (SILVER_BUCKET e) \<and>
           get_access_token e = Inr tok \<and>
           list_csv_files e (case GOOGLE_FOLDER_ID e of Some v \<Rightarrow> v | None \<Rightarrow> []) tok = Inr files \<and>
           process_files e tok files (called EvList (called EvAuthenticate s)) = (Inr u, s')"
  using assms by (auto simp: main_def Let_def split: if_splits sum.splits)

lemma columns_clean_dataframe: "columns (clean_dataframe lib df) = columns df"
  by (simp add: clean_dataframe_def Let_def columns_drop_duplicates)

lemma read_csv_columns: "read_csv e csv_text = Inr df \<Longrightarrow> columns df \<noteq> []"
  by (auto simp: read_csv_def split: sum.splits if_splits)

lemma distinct_rows_merge_dedup:
  assumes "columns new \<noteq> []"
  shows "distinct (rows (merge_dedup old new))"
proof (cases "is_empty old")
  case True
  then show ?thesis using assms by (simp add: merge_dedup_fresh distinct_rows_drop_duplicates)
next
  case False
  let ?kept = "new\<lparr>rows := filter (\<lambda>r. r \<notin> set (rows old)) (rows new)\<rparr>"
  have "\<not> is_empty (concat_frames old ?kept)" using False by (rule concat_not_empty)
  then have "columns (concat_frames old ?kept) \<noteq> []" by (simp add: is_empty_def)
  then show ?thesis using False
    by (simp add: merge_dedup_stored distinct_rows_drop_duplicates)
qed

lemma process_file_puts:
  assumes "process_file e tok f s = (r, s')"
  shows "(puts s' = puts s \<and> bucket s' = bucket s) \<or>
         (\<exists>d. distinct (rows d) \<and> puts s' = puts s @ [(object_key e (file_name f), d)] \<and>
               bucket s' = (bucket s)(object_key e (file_name f) \<mapsto> ParquetOf d))"
  using assms
  by (auto simp: process_file_def write_to_s3_def called_def Let_def columns_clean_dataframe
           distinct_rows_merge_dedup read_csv_columns
           split: sum.splits option.splits)

lemma process_files_puts:
  "process_files e tok fs s = (r, s') \<Longrightarrow>
   \<exists>ds. puts s' = puts s @ ds \<and> list_all (\<lambda>(k, d). distinct (rows d)) ds \<and>
        (dedup_store (bucket s) \<longrightarrow> dedup_store (bucket s'))"
proof (induction fs arbitrary: s)
  case Nil
  then show ?case by auto
next
  case (Cons f fs)
  obtain r1 s1 where one: "process_file e tok f s = (r1, s1)" by (cases "process_file e tok f s")
  from process_file_puts [OF one]
  have step: "\<exists>ds. puts s1 = puts s @ ds \<and> list_all (\<lambda>(k, d). distinct (rows d)) ds \<and>
        (dedup_store (bucket s) \<longrightarrow> dedup_store (bucket s1))"
    by (auto simp: dedup_store_def)
  show ?case
  proof (cases r1)
    case (Inl x)
    with one Cons.prems have "s' = s1" by simp
    with step show ?thesis by simp
  next
    case (Inr u)
    with one Cons.prems have "process_files e tok fs s1 = (r, s')" by simp
    from Cons.IH [OF this] step show ?thesis by auto
  qed
qed

lemma process_file_failure:
  "process_file e tok f s = (Inl x, s') \<Longrightarrow> puts s' = puts s \<and> bucket s' = bucket s"
  by (auto simp: process_file_def write_to_s3_def called_def Let_def
           split: sum.splits option.splits)

lemma process_files_keys:
  "process_files e tok fs s = (r, s') \<Longrightarrow>
   \<exists>k\<le>length fs. map fst (puts s') = map fst (puts s) @ map (\<lambda>f. object_key e (file_name f)) (take k fs)
      \<and> (\<forall>u. r = Inr u \<longrightarrow> k = length fs)"
proof (induction fs arbitrary: s)
  case Nil
  then show ?case by simp
next
  case (Cons f fs)
  obtain r1 s1 where one: "process_file e tok f s = (r1, s1)" by (cases "process_file e tok f s")
  show ?case
  proof (cases r1)
    case (Inl x)
    with one Cons.prems have "r = Inl x" and "s' = s1" by simp_all
    moreover from one Inl have "puts s1 = puts s" by (simp add: process_file_failure)
    ultimately show ?thesis by (intro exI [of _ 0]) simp
  next
    case (Inr u)
    with one Cons.prems have rest: "process_files e tok fs s1 = (r, s')" by simp
    from one Inr process_file_success [of e tok f s u s1]
    have p: "map fst (puts s1) = map fst (puts s) @ [object_key e (file_name f)]" by auto
    from Cons.IH [OF rest] obtain k where k: "k \<le> length fs"
      "map fst (puts s') = map fst (puts s1) @ map (\<lambda>f. object_key e (file_name f)) (take k fs)"
      "\<forall>u. r = Inr u \<longrightarrow> k = length fs"
      by blast
    with p show ?thesis by (intro exI [of _ "Suc k"]) simp
  qed
qed

lemma object_key_eq:
  "object_key e nm = SILVER_PREFIX e @
                    (case map_of EXPECTED_FILES (lower nm) of
                       Some v \<Rightarrow> v
                     | None \<Rightarrow> replace ''.csv'' ''_parquet'' (lower nm))"
proof (cases "map_of EXPECTED_FILES (lower nm)")
  case None
  then have "lower nm \<notin> set (map fst EXPECTED_FILES)" by (simp add: map_of_eq_None_iff)
  with None show ?thesis by (simp add: object_key_def parquet_name_def Let_def)
next
  case (Some v)
  then have "lower nm \<in> set (map fst EXPECTED_FILES)"
    by (metis map_of_eq_None_iff option.distinct(1) set_map)
  with Some show ?thesis by (simp add: object_key_def parquet_name_def Let_def)
qed

lemma count_file_calls:
  "count_list (concat (map (file_calls e) fs)) EvAuthenticate = 0 \<and>
   count_list (concat (map (file_calls e) fs)) EvList = 0"
  by (induction fs) (auto simp: file_calls_def)

text \<open>
  C4. A run of \<open>main\<close> that completes has authenticated once and listed once, in
  that order, and then made the five calls of every listed file (download, parse, clean,
  load and merge, write) file by file in list order: the calls of a file all come before
  the calls of the next.
\<close>

theorem linear_batch_sequence:
  assumes "main e s = (Inr u, s')"
  shows "\<exists>tok files.
           get_access_token e = Inr tok \<and>
           list_csv_files e (case GOOGLE_FOLDER_ID e of Some v \<Rightarrow> v | None \<Rightarrow> []) tok = Inr files \<and>
           calls s' = calls s @ [EvAuthenticate, EvList] @ concat (map (file_calls e) files) \<and>
           count_list (drop (length (calls s)) (calls s')) EvAuthenticate = 1 \<and>
           count_list (drop (length (calls s)) (calls s')) EvList = 1"
proof -
  from main_success [OF assms] obtain tok files where
    a: "get_access_token e = Inr tok"
    and l: "list_csv_files e (case GOOGLE_FOLDER_ID e of Some v \<Rightarrow> v | None \<Rightarrow> []) tok = Inr files"
    and p: "process_files e tok files (called EvList (called EvAuthenticate s)) = (Inr u, s')"
    by blast
  from process_files_success [OF p]
  have c: "calls s' = calls s @ [EvAuthenticate, EvList] @ concat (map (file_calls e) files)"
    by (simp add: called_def)
  have "drop (length (calls s)) (calls s') = [EvAuthenticate, EvList] @ concat (map (file_calls e) files)"
    by (simp add: c)
  then have "count_list (drop (length (calls s)) (calls s')) EvAuthenticate = 1"
    and "count_list (drop (length (calls s)) (calls s')) EvList = 1"
    using count_file_calls [of e files] by simp_all
  with a l c show ?thesis by blast
qed

text \<open>
  C6. The objects a run puts are one per listed file, in list order, for the files up to
  the one that raises, and for every listed file when the run completes. The key of a
  file is \<open>SILVER_PREFIX\<close> followed by the entry of \<open>EXPECTED_FILES\<close> for the
  lowercased name when there is one, and otherwise by the lowercased name with
  \<open>.csv\<close> replaced by \<open>_parquet\<close>.
\<close>

theorem object_keys_written:
  assumes "main e s = (r, s')"
    and "get_access_token e = Inr tok"
    and "list_csv_files e (case GOOGLE_FOLDER_ID e of Some v \<Rightarrow> v | None \<Rightarrow> []) tok = Inr files"
  shows "\<exists>k\<le>length files.
           map fst (puts s') = map fst (puts s) @
             map (\<lambda>f. SILVER_PREFIX e @
                    (case map_of EXPECTED_FILES (lower (file_name f)) of
                       Some v \<Rightarrow> v
                     | None \<Rightarrow> replace ''.csv'' ''_parquet'' (lower (file_name f)))) (take k files)
           \<and> (r = Inr () \<longrightarrow> k = length files)"
proof (cases "truthy (GOOGLE_FOLDER_ID e) \<and> truthy (SILVER_BUCKET e)")
  case False
  then have "main e s = (Inl (SystemExit 1), s)" by (auto simp: main_def)
  with assms(1) show ?thesis by (intro exI [of _ 0]) auto
next
  case True
  with assms have "process_files e tok files (called EvList (called EvAuthenticate s)) = (r, s')"
    by (simp add: main_ready)
  from process_files_keys [OF this] show ?thesis
    by (simp add: called_def object_key_eq [symmetric])
qed

text \<open>Every entry of \<open>EXPECTED_FILES\<close> is what the replacement gives for its name.\<close>

lemma expected_files_follow_the_rule:
  "list_all (\<lambda>(k, v). v = replace ''.csv'' ''_parquet'' k \<and> lower k = k) EXPECTED_FILES"
  by code_simp

text \<open>
  C8. With \<open>GDRIVE_FOLDER_ID\<close> or \<open>SILVER_BUCKET_NAME\<close> unset or empty,
  \<open>main\<close> exits with status 1 and the state is untouched: no call was made and
  nothing was put.
\<close>

theorem missing_variables_exit:
  assumes "GOOGLE_FOLDER_ID e = None \<or> GOOGLE_FOLDER_ID e = Some [] \<or>
           SILVER_BUCKET e = None \<or> SILVER_BUCKET e = Some []"
  shows "main e s = (Inl (SystemExit 1), s)"
  using assms by (auto simp: main_def truthy_def)

text \<open>
  C9. Whatever the outcome of a run, every frame it has put has pairwise distinct rows,
  and a bucket whose stored frames had no duplicate row before the run has none after.
\<close>

theorem written_frames_have_no_duplicates:
  assumes "main e s = (r, s')"
  shows "\<exists>ds. puts s' = puts s @ ds \<and> list_all (\<lambda>(k, d). distinct (rows d)) ds \<and>
              (dedup_store (bucket s) \<longrightarrow> dedup_store (bucket s'))"
proof (cases "truthy (GOOGLE_FOLDER_ID e) \<and> truthy (SILVER_BUCKET e)")
  case False
  then have "main e s = (Inl (SystemExit 1), s)" by (auto simp: main_def)
  with assms show ?thesis by simp
next
  case True
  show ?thesis
  proof (cases "get_access_token e")
    case (Inl x)
    with True assms have "s' = called EvAuthenticate s" by (simp add: main_ready)
    then show ?thesis by (simp add: called_def)
  next
    case tok: (Inr tok)
    show ?thesis
    proof (cases "list_csv_files e (case GOOGLE_FOLDER_ID e of Some v \<Rightarrow> v | None \<Rightarrow> []) tok")
      case (Inl x)
      with True tok assms have "s' = called EvList (called EvAuthenticate s)" by (simp add: main_ready)
      then show ?thesis by (simp add: called_def)
    next
      case (Inr files)
      with True tok assms
      have "process_files e tok files (called EvList (called EvAuthenticate s)) = (r, s')"
        by (simp add: main_ready)
      from process_files_puts [OF this] show ?thesis by (simp add: called_def)
    qed
  qed
qed

text \<open>
  C10. \<open>load_existing_parquet\<close> returns a frame for every outcome of the read: the
  stored frame when the read succeeds, and the empty frame when the key is missing, when
  S3 raises anything else and when the object does not parse. After a failed read the merge
  is that of a key with no prior data.
\<close>

theorem load_existing_parquet_total:
  "load_existing_parquet e b key =
     (case get_and_read e b key of Inr df \<Rightarrow> df | Inl err \<Rightarrow> empty_frame)
   \<and> (get_and_read e b key = Inl err \<longrightarrow>
        is_empty (load_existing_parquet e b key) \<and>
        merge_dedup (load_existing_parquet e b key) new = drop_duplicates new)
   \<and> (s3_get_fault e key = None \<and> b key = Some (ParquetOf df)
        \<longrightarrow> load_existing_parquet e b key = df)
   \<and> (s3_get_fault e key = None \<and> b key = None \<longrightarrow> get_and_read e b key = Inl NoSuchKey)
   \<and> (s3_get_fault e key = None \<and> b key = Some NotParquet
        \<longrightarrow> (\<exists>x. get_and_read e b key = Inl (OtherError x)))
   \<and> (s3_get_fault e key = Some x \<longrightarrow> get_and_read e b key = Inl (OtherError x))"
  by (auto simp: load_existing_parquet_def get_and_read_def merge_dedup_fresh is_empty_def
        empty_frame_def split: sum.splits load_error.splits option.splits s3_object.splits)

text \<open>
  C5. With both variables set, an exception of authentication or of the listing leaves
  \<open>main\<close> at once. An exception of the download, the parse, the cleaning or the
  upload of a file, after the files before it went through, leaves \<open>main\<close> with
  that exception and with the state of that moment: the failing call was made once, and
  no call was made for a later file.
\<close>

theorem exceptions_abort_run:
  assumes "truthy (GOOGLE_FOLDER_ID e)" and "truthy (SILVER_BUCKET e)"
    and "folder = (case GOOGLE_FOLDER_ID e of Some v \<Rightarrow> v | None \<Rightarrow> [])"
  shows "(get_access_token e = Inl x \<longrightarrow>
            main e s = (Inl (Exception x), s\<lparr>calls := calls s @ [EvAuthenticate]\<rparr>))
       \<and> (get_access_token e = Inr tok \<and> list_csv_files e folder tok = Inl x \<longrightarrow>
            main e s = (Inl (Exception x), s\<lparr>calls := calls s @ [EvAuthenticate, EvList]\<rparr>))
       \<and> (get_access_token e = Inr tok \<and> list_csv_files e folder tok = Inr (pre @ f # post) \<and>
          process_files e tok pre (s\<lparr>calls := calls s @ [EvAuthenticate, EvList]\<rparr>) = (Inr u, s1) \<longrightarrow>
            calls s1 = calls s @ [EvAuthenticate, EvList] @ concat (map (file_calls e) pre) \<and>
            (download_csv e (file_id f) tok = Inl x \<longrightarrow>
               main e s = (Inl (Exception x), s1\<lparr>calls := calls s1 @ [EvDownload (file_id f)]\<rparr>)) \<and>
            (download_csv e (file_id f) tok = Inr csv_text \<and> read_csv e csv_text = Inl x \<longrightarrow>
               main e s = (Inl (Exception x),
                 s1\<lparr>calls := calls s1 @ [EvDownload (file_id f), EvReadCsv (file_name f)]\<rparr>)) \<and>
            (download_csv e (file_id f) tok = Inr csv_text \<and> read_csv e csv_text = Inr df \<and>
             clean_fault e df = Some x \<longrightarrow>
               main e s = (Inl (Exception x),
                 s1\<lparr>calls := calls s1 @ [EvDownload (file_id f), EvReadCsv (file_name f),
                                          EvClean (file_name f)]\<rparr>)) \<and>
            (download_csv e (file_id f) tok = Inr csv_text \<and> read_csv e csv_text = Inr df \<and>
             clean_fault e df = None \<and>
             s3_put_fault e (object_key e (file_name f))
               (merge_dedup (load_existing_parquet e (bucket s1) (object_key e (file_name f)))
                            (clean_dataframe (stats e) df)) = Some x \<longrightarrow>
               main e s = (Inl (Exception x), s1\<lparr>calls := calls s1 @ file_calls e f\<rparr>)))"
proof (intro conjI impI)
  note m = main_ready [OF assms(1,2), of s, folded assms(3)]
  have s2: "called EvList (called EvAuthenticate s) = s\<lparr>calls := calls s @ [EvAuthenticate, EvList]\<rparr>"
    by (simp add: called_def)
  show "main e s = (Inl (Exception x), s\<lparr>calls := calls s @ [EvAuthenticate]\<rparr>)"
    if "get_access_token e = Inl x"
    using that by (simp add: m called_def)
  show "main e s = (Inl (Exception x), s\<lparr>calls := calls s @ [EvAuthenticate, EvList]\<rparr>)"
    if "get_access_token e = Inr tok \<and> list_csv_files e folder tok = Inl x"
    using that by (simp add: m called_def)
  assume run: "get_access_token e = Inr tok \<and> list_csv_files e folder tok = Inr (pre @ f # post) \<and>
          process_files e tok pre (s\<lparr>calls := calls s @ [EvAuthenticate, EvList]\<rparr>) = (Inr u, s1)"
  then have pre: "process_files e tok pre (s\<lparr>calls := calls s @ [EvAuthenticate, EvList]\<rparr>) = (Inr u, s1)"
    by simp
  from process_files_success [OF pre]
  show "calls s1 = calls s @ [EvAuthenticate, EvList] @ concat (map (file_calls e) pre)"
    by simp
  have abort: "main e s = (Inl y, s2)" if "process_file e tok f s1 = (Inl y, s2)" for y s2
    using run process_files_abort [OF pre that, of post] by (simp add: m s2)
  show "main e s = (Inl (Exception x), s1\<lparr>calls := calls s1 @ [EvDownload (file_id f)]\<rparr>)"
    if "download_csv e (file_id f) tok = Inl x"
    by (rule abort) (simp add: process_file_def called_def Let_def that)
  show "main e s = (Inl (Exception x),
                 s1\<lparr>calls := calls s1 @ [EvDownload (file_id f), EvReadCsv (file_name f)]\<rparr>)"
    if "download_csv e (file_id f) tok = Inr csv_text \<and> read_csv e csv_text = Inl x"
    by (rule abort) (simp add: process_file_def called_def Let_def that)
  show "main e s = (Inl (Exception x),
                 s1\<lparr>calls := calls s1 @ [EvDownload (file_id f), EvReadCsv (file_name f),
                                          EvClean (file_name f)]\<rparr>)"
    if "download_csv e (file_id f) tok = Inr csv_text \<and> read_csv e csv_text = Inr df \<and>
             clean_fault e df = Some x"
    by (rule abort) (simp add: process_file_def called_def Let_def that)
  show "main e s = (Inl (Exception x), s1\<lparr>calls := calls s1 @ file_calls e f\<rparr>)"
    if "download_csv e (file_id f) tok = Inr csv_text \<and> read_csv e csv_text = Inr df \<and>
             clean_fault e df = None \<and>
             s3_put_fault e (object_key e (file_name f))
               (merge_dedup (load_existing_parquet e (bucket s1) (object_key e (file_name f)))
                            (clean_dataframe (stats e) df)) = Some x"
    by (rule abort)
       (simp add: process_file_def write_to_s3_def called_def file_calls_def Let_def that)
qed

lemma demo_run: "main demo_env demo_state = (Inr (), snd (main demo_env demo_state))"
proof -
  have "fst (main demo_env demo_state) = Inr ()" by code_simp
  then show ?thesis by (simp add: prod_eq_iff)
qed

lemma demo_token: "get_access_token demo_env = Inr ''token''"
  by code_simp

lemma demo_listing: "list_csv_files demo_env ''folder'' ''token'' = Inr demo_files"
  by code_simp

lemma demo_folder: "(case GOOGLE_FOLDER_ID demo_env of Some v \<Rightarrow> v | None \<Rightarrow> []) = ''folder''"
  by code_simp

theorem linear_batch_sequence_witness:
  "calls (snd (main demo_env demo_state)) =
     [EvAuthenticate, EvList,
      EvDownload ''1'', EvReadCsv ''NH_Penalties_Oct2024.csv'', EvClean ''NH_Penalties_Oct2024.csv'',
      EvLoad ''datasets/nh_penalties_oct2024_parquet'', EvWrite ''datasets/nh_penalties_oct2024_parquet'',
      EvDownload ''2'', EvReadCsv ''Extra.CSV'', EvClean ''Extra.CSV'',
      EvLoad ''datasets/extra_parquet'', EvWrite ''datasets/extra_parquet'']"
proof -
  from linear_batch_sequence [OF demo_run] obtain tok files where
    l: "list_csv_files demo_env (case GOOGLE_FOLDER_ID demo_env of Some v \<Rightarrow> v | None \<Rightarrow> []) tok = Inr files"
    and t: "get_access_token demo_env = Inr tok"
    and c: "calls (snd (main demo_env demo_state))
            = calls demo_state @ [EvAuthenticate, EvList] @ concat (map (file_calls demo_env) files)"
    by blast
  from t have "tok = ''token''" by (simp add: demo_token)
  with l have f: "files = demo_files" by (simp add: demo_folder demo_listing)
  have "calls demo_state @ [EvAuthenticate, EvList] @ concat (map (file_calls demo_env) demo_files) =
     [EvAuthenticate, EvList,
      EvDownload ''1'', EvReadCsv ''NH_Penalties_Oct2024.csv'', EvClean ''NH_Penalties_Oct2024.csv'',
      EvLoad ''datasets/nh_penalties_oct2024_parquet'', EvWrite ''datasets/nh_penalties_oct2024_parquet'',
      EvDownload ''2'', EvReadCsv ''Extra.CSV'', EvClean ''Extra.CSV'',
      EvLoad ''datasets/extra_parquet'', EvWrite ''datasets/extra_parquet'']"
    by code_simp
  with c f show ?thesis by simp
qed

theorem object_keys_written_witness:
  "map fst (puts (snd (main demo_env demo_state)))
     = [''datasets/nh_penalties_oct2024_parquet'', ''datasets/extra_parquet'']"
proof -
  have l: "list_csv_files demo_env (case GOOGLE_FOLDER_ID demo_env of Some v \<Rightarrow> v | None \<Rightarrow> [])
             ''token'' = Inr demo_files"
    by (simp add: demo_folder demo_listing)
  from object_keys_written [OF demo_run demo_token l] obtain k where
    k: "k = length demo_files"
    and p: "map fst (puts (snd (main demo_env demo_state))) = map fst (puts demo_state) @
             map (\<lambda>f. SILVER_PREFIX demo_env @
                    (case map_of EXPECTED_FILES (lower (file_name f)) of
                       Some v \<Rightarrow> v
                     | None \<Rightarrow> replace ''.csv'' ''_parquet'' (lower (file_name f)))) (take k demo_files)"
    by blast
  have "map fst (puts demo_state) @
             map (\<lambda>f. SILVER_PREFIX demo_env @
                    (case map_of EXPECTED_FILES (lower (file_name f)) of
                       Some v \<Rightarrow> v
                     | None \<Rightarrow> replace ''.csv'' ''_parquet'' (lower (file_name f))))
               (take (length demo_files) demo_files)
        = [''datasets/nh_penalties_oct2024_parquet'', ''datasets/extra_parquet'']"
    by code_simp
  with p k show ?thesis by simp
qed

theorem missing_variables_exit_witness:
  "main unset_env demo_state = (Inl (SystemExit 1), demo_state) \<and>
   main blank_env demo_state = (Inl (SystemExit 1), demo_state)"
proof
  have "GOOGLE_FOLDER_ID unset_env = None" by code_simp
  then show "main unset_env demo_state = (Inl (SystemExit 1), demo_state)"
    by (intro missing_variables_exit) simp
  have "SILVER_BUCKET blank_env = Some []" by code_simp
  then show "main blank_env demo_state = (Inl (SystemExit 1), demo_state)"
    by (intro missing_variables_exit) simp
qed

lemma dedup_demo_state: "dedup_store (bucket demo_state)"
proof -
  have "distinct (rows penalties_stored)" by code_simp
  then show ?thesis by (auto simp: dedup_store_def demo_state_def split: if_splits)
qed

theorem written_frames_have_no_duplicates_witness:
  "list_all (\<lambda>(k, d). distinct (rows d)) (puts (snd (main demo_env demo_state))) \<and>
   dedup_store (bucket (snd (main demo_env demo_state)))"
proof -
  have "puts demo_state = []" by code_simp
  with written_frames_have_no_duplicates [OF demo_run] dedup_demo_state
  show ?thesis by auto
qed

theorem load_existing_parquet_total_witness:
  "load_existing_parquet demo_env (bucket demo_state) ''datasets/nh_penalties_oct2024_parquet''
     = penalties_stored
   \<and> load_existing_parquet demo_env (bucket demo_state) ''datasets/extra_parquet'' = empty_frame
   \<and> load_existing_parquet demo_env broken_bucket ''datasets/extra_parquet'' = empty_frame
   \<and> load_existing_parquet denied_env (bucket demo_state) ''datasets/nh_penalties_oct2024_parquet''
       = empty_frame
   \<and> merge_dedup (load_existing_parquet denied_env (bucket demo_state)
                    ''datasets/nh_penalties_oct2024_parquet'') extra_csv
       = drop_duplicates extra_csv"
proof -
  let ?k = "''datasets/nh_penalties_oct2024_parquet''"
  have g: "s3_get_fault demo_env k = None" for k by (simp add: demo_env_def)
  have a: "bucket demo_state ?k = Some (ParquetOf penalties_stored)" by (simp add: demo_state_def)
  have b: "bucket demo_state ''datasets/extra_parquet'' = None" by (simp add: demo_state_def)
  have c: "broken_bucket ''datasets/extra_parquet'' = Some NotParquet" by (simp add: broken_bucket_def)
  have d: "s3_get_fault denied_env ?k = Some ''AccessDenied''"
    by (simp add: denied_env_def demo_env_def)
  note t1 = load_existing_parquet_total
    [of demo_env "bucket demo_state" ?k NoSuchKey extra_csv penalties_stored "[]"]
  note t2 = load_existing_parquet_total
    [of demo_env "bucket demo_state" "''datasets/extra_parquet''" NoSuchKey extra_csv extra_csv "[]"]
  note t3 = load_existing_parquet_total
    [of demo_env broken_bucket "''datasets/extra_parquet''" NoSuchKey extra_csv extra_csv "[]"]
  note t4 = load_existing_parquet_total
    [of denied_env "bucket demo_state" ?k "OtherError ''AccessDenied''" extra_csv extra_csv
        "''AccessDenied''"]
  from t1 g a have 1: "load_existing_parquet demo_env (bucket demo_state) ?k = penalties_stored"
    by blast
  from t2 g b
  have 2: "load_existing_parquet demo_env (bucket demo_state) ''datasets/extra_parquet'' = empty_frame"
    by simp
  from t3 g c
  have 3: "load_existing_parquet demo_env broken_bucket ''datasets/extra_parquet'' = empty_frame"
    by auto
  from t4 d have gr: "get_and_read denied_env (bucket demo_state) ?k = Inl (OtherError ''AccessDenied'')"
    by blast
  from t4 have "load_existing_parquet denied_env (bucket demo_state) ?k =
     (case get_and_read denied_env (bucket demo_state) ?k of Inr df \<Rightarrow> df | Inl err \<Rightarrow> empty_frame)"
    by blast
  then have 4: "load_existing_parquet denied_env (bucket demo_state) ?k = empty_frame"
    by (simp add: gr)
  from t4 gr
  have 5: "merge_dedup (load_existing_parquet denied_env (bucket demo_state) ?k) extra_csv
              = drop_duplicates extra_csv"
    by blast
  from 1 2 3 4 5 show ?thesis by blast
qed

lemma failing_pre:
  "process_files failing_env ''token'' [demo_files ! 0]
     (demo_state\<lparr>calls := calls demo_state @ [EvAuthenticate, EvList]\<rparr>)
   = (Inr (), snd (process_files failing_env ''token'' [demo_files ! 0]
                     (demo_state\<lparr>calls := calls demo_state @ [EvAuthenticate, EvList]\<rparr>)))"
proof -
  have "fst (process_files failing_env ''token'' [demo_files ! 0]
     (demo_state\<lparr>calls := calls demo_state @ [EvAuthenticate, EvList]\<rparr>)) = Inr ()"
    by code_simp
  then show ?thesis by (simp add: prod_eq_iff)
qed

theorem exceptions_abort_run_witness:
  "fst (main failing_env demo_state) = Inl (Exception ''HTTPError'') \<and>
   calls (snd (main failing_env demo_state)) =
     [EvAuthenticate, EvList,
      EvDownload ''1'', EvReadCsv ''NH_Penalties_Oct2024.csv'', EvClean ''NH_Penalties_Oct2024.csv'',
      EvLoad ''datasets/nh_penalties_oct2024_parquet'', EvWrite ''datasets/nh_penalties_oct2024_parquet'',
      EvDownload ''2'']"
proof -
  let ?s1 = "snd (process_files failing_env ''token'' [demo_files ! 0]
                     (demo_state\<lparr>calls := calls demo_state @ [EvAuthenticate, EvList]\<rparr>))"
  have t1: "truthy (GOOGLE_FOLDER_ID failing_env)" and t2: "truthy (SILVER_BUCKET failing_env)"
    by code_simp+
  have fo: "''folder'' = (case GOOGLE_FOLDER_ID failing_env of Some v \<Rightarrow> v | None \<Rightarrow> [])"
    by code_simp
  have tk: "get_access_token failing_env = Inr ''token''" by code_simp
  have ls: "list_csv_files failing_env ''folder'' ''token''
              = Inr ([demo_files ! 0] @ (demo_files ! 1) # [\<lparr>file_id = ''3'', file_name = ''third.csv''\<rparr>])"
    by code_simp
  have dl: "download_csv failing_env (file_id (demo_files ! 1)) ''token'' = Inl ''HTTPError''"
    by code_simp
  from exceptions_abort_run [OF t1 t2 fo, where tok = "''token''" and s = demo_state
      and pre = "[demo_files ! 0]" and f = "demo_files ! 1"
      and post = "[\<lparr>file_id = ''3'', file_name = ''third.csv''\<rparr>]" and u = "()" and ?s1.0 = ?s1
      and x = "''HTTPError''" and csv_text = "[]" and df = extra_csv]
    tk ls failing_pre dl
  have m: "main failing_env demo_state
        = (Inl (Exception ''HTTPError''), ?s1\<lparr>calls := calls ?s1 @ [EvDownload (file_id (demo_files ! 1))]\<rparr>)"
    and c: "calls ?s1 = calls demo_state @ [EvAuthenticate, EvList]
                 @ concat (map (file_calls failing_env) [demo_files ! 0])"
    by blast+
  have ev: "calls demo_state @ [EvAuthenticate, EvList]
                 @ concat (map (file_calls failing_env) [demo_files ! 0])
                 @ [EvDownload (file_id (demo_files ! 1))] =
     [EvAuthenticate, EvList,
      EvDownload ''1'', EvReadCsv ''NH_Penalties_Oct2024.csv'', EvClean ''NH_Penalties_Oct2024.csv'',
      EvLoad ''datasets/nh_penalties_oct2024_parquet'', EvWrite ''datasets/nh_penalties_oct2024_parquet'',
      EvDownload ''2'']"
    by code_simp
  from m c ev show ?thesis by simp
qed

section \<open>The steps of clean_dataframe\<close>

lemma map_cells_cong:
  "(\<And>r j. r \<in> set rs \<Longrightarrow> j < length r \<Longrightarrow> g j (r ! j) = h j (r ! j)) \<Longrightarrow>
   map_cells g rs = map_cells h rs"
  by (simp add: map_cells_def)

lemma map_cells_id:
  "(\<And>r j. r \<in> set rs \<Longrightarrow> j < length r \<Longrightarrow> g j (r ! j) = r ! j) \<Longrightarrow> map_cells g rs = rs"
proof -
  assume g: "\<And>r j. r \<in> set rs \<Longrightarrow> j < length r \<Longrightarrow> g j (r ! j) = r ! j"
  have "map (\<lambda>j. g j (r ! j)) [0..<length r] = r" if "r \<in> set rs" for r
  proof -
    have "map (\<lambda>j. g j (r ! j)) [0..<length r] = map (\<lambda>j. r ! j) [0..<length r]"
      using g [OF that] by simp
    then show ?thesis by (simp add: map_nth)
  qed
  then show ?thesis by (simp add: map_cells_def map_idI)
qed

lemma map_cells_comp:
  "map_cells g (map_cells h rs) = map_cells (\<lambda>j c. g j (h j c)) rs"
  by (simp add: map_cells_def)

lemma column_map_cells:
  "(\<And>c. g i c = c) \<Longrightarrow> column i (map_cells g rs) = column i rs"
  by (simp add: column_def map_cells_def cell_at_def)

lemma cell_in_column: "r \<in> set rs \<Longrightarrow> j < length r \<Longrightarrow> r ! j \<in> set (column j rs)"
  by (auto simp: column_def cell_at_def intro!: image_eqI [where x = r])

lemma set_column_map:
  "set_column i (map g (column i rs)) rs
     = map_cells (\<lambda>j c. if j = i then g c else c) rs"
proof -
  have "zip rs (map g (column i rs)) = map (\<lambda>r. (r, g (cell_at r i))) rs"
    by (induction rs) (simp_all add: column_def)
  then have "set_column i (map g (column i rs)) rs = map (\<lambda>r. r[i := g (cell_at r i)]) rs"
    by (simp add: set_column_def)
  also have "\<dots> = map_cells (\<lambda>j c. if j = i then g c else c) rs"
    unfolding map_cells_def
  proof (rule map_cong [OF refl])
    fix r
    show "r[i := g (cell_at r i)] = map (\<lambda>j. if j = i then g (r ! j) else r ! j) [0..<length r]"
      by (rule nth_equalityI) (auto simp: cell_at_def nth_list_update)
  qed
  finally show ?thesis .
qed

lemma fold_columns:
  assumes step: "\<And>i rs. f i rs = map_cells (\<lambda>j c. if j = i then G i (column i rs) c else c) rs"
    and "distinct is"
  shows "fold f is rs = map_cells (\<lambda>j c. if j \<in> set is then G j (column j rs) c else c) rs"
  using assms(2)
proof (induction "is" arbitrary: rs)
  case Nil
  then show ?case by (simp add: map_cells_id)
next
  case (Cons i "is")
  let ?rs1 = "f i rs"
  have col: "column j ?rs1 = column j rs" if "j \<noteq> i" for j
    unfolding step using that by (intro column_map_cells) simp
  have "fold f (i # is) rs = fold f is ?rs1" by simp
  also have "\<dots> = map_cells (\<lambda>j c. if j \<in> set is then G j (column j ?rs1) c else c) ?rs1"
    using Cons by simp
  also have "\<dots> = map_cells (\<lambda>j c. if j \<in> set is then G j (column j rs) c else c) ?rs1"
  proof (rule map_cells_cong)
    fix r j
    show "(if j \<in> set is then G j (column j ?rs1) (r ! j) else r ! j)
          = (if j \<in> set is then G j (column j rs) (r ! j) else r ! j)"
    proof (cases "j \<in> set is")
      case True
      with Cons.prems have "j \<noteq> i" by auto
      then show ?thesis by (simp add: col)
    next
      case False
      then show ?thesis by simp
    qed
  qed
  also have "\<dots> = map_cells (\<lambda>j c. if j \<in> set (i # is) then G j (column j rs) c else c) rs"
    unfolding step map_cells_comp using Cons.prems by (intro map_cells_cong) auto
  finally show ?case .
qed

lemma fill_step_cells:
  "fill_step lib cols i rs
     = map_cells (\<lambda>j c. if j = i then (if c = Null then fill_value lib (snd (cols ! i)) (column i rs) else c)
                        else c) rs"
proof (cases "Null \<in> set (column i rs)")
  case False
  then have "map_cells (\<lambda>j c. if j = i then (if c = Null then fill_value lib (snd (cols ! i)) (column i rs) else c)
                        else c) rs = rs"
    by (intro map_cells_id) (auto dest: cell_in_column)
  with False show ?thesis by (simp add: fill_step_def)
next
  case True
  have v: "(if snd (cols ! i) = Numeric then set_column i (fillna (num_cell (median lib (column i rs))) (column i rs)) rs
         else (let mode_vals = mode lib (column i rs) in
            if length mode_vals > 0 then set_column i (fillna (mode_vals ! 0) (column i rs)) rs
            else set_column i (fillna (Str ''Unknown'') (column i rs)) rs))
        = set_column i (fillna (fill_value lib (snd (cols ! i)) (column i rs)) (column i rs)) rs"
    by (cases "mode lib (column i rs)") (auto simp: fill_value_def Let_def)
  show ?thesis using True
    by (simp add: fill_step_def Let_def v fillna_def set_column_map del: One_nat_def)
qed

lemma clip_cell_unbounded: "clip_cell None None c = c"
  by (cases c) (simp_all add: clip_cell_def)

lemma clip_to_iqr_bounds:
  "clip_to_iqr lib col c
     = clip_cell (fst (iqr_bounds (quantile lib col (1 / 4)) (quantile lib col (3 / 4))))
                 (snd (iqr_bounds (quantile lib col (1 / 4)) (quantile lib col (3 / 4)))) c"
  by (cases "quantile lib col (1 / 4)"; cases "quantile lib col (3 / 4)")
     (simp_all add: clip_to_iqr_def iqr_bounds_def Let_def clip_cell_unbounded)

lemma clip_step_cells:
  "clip_step lib i rs = map_cells (\<lambda>j c. if j = i then clip_to_iqr lib (column i rs) c else c) rs"
  unfolding clip_to_iqr_bounds
  by (simp add: clip_step_def Let_def clip_def set_column_map case_prod_beta)

lemma boolean_index_all:
  "length flags = length xs \<Longrightarrow> count_list flags True = 0 \<Longrightarrow>
   boolean_index xs (map Not flags) = xs"
proof (induction xs flags rule: list_induct2')
  case (4 x xs f fs)
  then show ?case by (cases f) (simp_all add: boolean_index_def)
qed (simp_all add: boolean_index_def)

lemma drop_duplicates_none:
  "count_list (duplicated df) True = 0 \<Longrightarrow> drop_duplicates df = df"
  by (cases "is_empty df")
     (simp_all add: drop_duplicates_def duplicated_def boolean_index_all length_duplicated_from)

lemma fill_nulls_none:
  assumes "\<not> list_ex (\<lambda>m. m \<noteq> 0) (missing df)"
  shows "fill_nulls lib df = df"
proof -
  have no: "Null \<notin> set (column j (rows df))" if "j < length (columns df)" for j
  proof -
    have "count_list (column j (rows df)) Null = 0"
      using assms that by (auto simp: list_ex_iff missing_def)
    then show ?thesis by (simp add: count_list_0_iff)
  qed
  have "map_cells (\<lambda>j c. if j < length (columns df) \<and> c = Null
               then fill_value lib (snd (columns df ! j)) (column j (rows df)) else c) (rows df)
        = rows df"
  proof (rule map_cells_id)
    fix r j
    assume r: "r \<in> set (rows df)" and j: "j < length r"
    show "(if j < length (columns df) \<and> r ! j = Null
           then fill_value lib (snd (columns df ! j)) (column j (rows df)) else r ! j) = r ! j"
      using cell_in_column [OF r j] no [of j] by auto
  qed
  then show ?thesis by (simp add: fill_nulls_def)
qed

lemma fill_loop_eq:
  "df\<lparr>rows := fold (fill_step lib (columns df)) [0..<length (columns df)] (rows df)\<rparr>
     = fill_nulls lib df"
proof -
  have "fold (fill_step lib (columns df)) [0..<length (columns df)] (rows df)
        = map_cells (\<lambda>j c. if j \<in> set [0..<length (columns df)]
               then (if c = Null then fill_value lib (snd (columns df ! j)) (column j (rows df)) else c)
               else c) (rows df)"
    by (rule fold_columns [where G = "\<lambda>j col c. if c = Null then fill_value lib (snd (columns df ! j)) col else c"])
       (simp_all add: fill_step_cells)
  also have "\<dots> = map_cells (\<lambda>j c. if j < length (columns df) \<and> c = Null
               then fill_value lib (snd (columns df ! j)) (column j (rows df)) else c) (rows df)"
    by (intro map_cells_cong) auto
  finally show ?thesis by (simp add: fill_nulls_def)
qed

lemma clip_loop_eq:
  "df\<lparr>rows := fold (clip_step lib) (num_cols df) (rows df)\<rparr> = clip_outliers lib df"
proof -
  have "fold (clip_step lib) (num_cols df) (rows df)
        = map_cells (\<lambda>j c. if j \<in> set (num_cols df) then clip_to_iqr lib (column j (rows df)) c else c)
            (rows df)"
    by (rule fold_columns [where G = "\<lambda>j col c. clip_to_iqr lib col c"])
       (simp_all add: clip_step_cells num_cols_def)
  also have "\<dots> = map_cells (\<lambda>j c. if j < length (columns df) \<and> snd (columns df ! j) = Numeric
               then clip_to_iqr lib (column j (rows df)) c else c) (rows df)"
    by (intro map_cells_cong) (auto simp: num_cols_def)
  finally show ?thesis by (simp add: clip_outliers_def)
qed

text \<open>
  C2. \<open>clean_dataframe\<close>, with its guards and its two loops over the columns, is
  the composition of three steps, in this order: every missing value of a numeric column
  becomes the median of the column and every missing value of another column its first
  mode, or \<open>Unknown\<close> when it has no mode; duplicate rows are dropped; every value
  of a numeric column is clipped to the bounds \<open>Q1 - 1.5 IQR\<close> and
  \<open>Q3 + 1.5 IQR\<close> of the quartiles that column has after the first two steps.
\<close>

theorem clean_dataframe_steps:
  "clean_dataframe lib df = clip_outliers lib (drop_duplicates (fill_nulls lib df))"
proof -
  have one: "(if list_ex (\<lambda>m. m \<noteq> 0) (missing df)
                 then df\<lparr>rows := fold (fill_step lib (columns df)) [0..<length (columns df)] (rows df)\<rparr>
                 else df) = fill_nulls lib df"
    by (simp add: fill_loop_eq fill_nulls_none)
  have two: "(if count_list (duplicated d) True > 0 then drop_duplicates d else d) = drop_duplicates d"
    for d
    by (simp add: drop_duplicates_none)
  show ?thesis
    unfolding clean_dataframe_def Let_def one two by (rule clip_loop_eq)
qed

lemma clip_cell_interval:
  "lo \<le> hi \<Longrightarrow> clip_cell (Some lo) (Some hi) (Num x) = Num (max lo (min hi x))"
  by (auto simp: clip_cell_def Let_def min_def max_def)

theorem clean_dataframe_steps_witness:
  "clip_outliers exact_stats (drop_duplicates (fill_nulls exact_stats penalties_csv))
     = \<lparr>columns = [(''state'', Object), (''fine'', Numeric)],
        rows = [[Str ''TX'', Num 10], [Str ''CA'', Num 10], [Str ''NY'', Num 12]]\<rparr>
   \<and> clip_outliers exact_stats (drop_duplicates (fill_nulls exact_stats outlier_csv))
     = \<lparr>columns = [(''x'', Numeric)],
        rows = [[Num 1], [Num 2], [Num 3], [Num 4], [Num 7]]\<rparr>"
proof -
  have a: "clean_dataframe exact_stats penalties_csv
     = \<lparr>columns = [(''state'', Object), (''fine'', Numeric)],
        rows = [[Str ''TX'', Num 10], [Str ''CA'', Num 10], [Str ''NY'', Num 12]]\<rparr>"
    by code_simp
  have b: "clean_dataframe exact_stats outlier_csv
     = \<lparr>columns = [(''x'', Numeric)],
        rows = [[Num 1], [Num 2], [Num 3], [Num 4], [Num 7]]\<rparr>"
    by code_simp
  from a b clean_dataframe_steps [of exact_stats penalties_csv]
    clean_dataframe_steps [of exact_stats outlier_csv]
  show ?thesis by simp
qed

section \<open>The query of the dashboard\<close>

lemma poll_finishes:
  "finished (st (n + k)) \<Longrightarrow> (\<forall>m. n \<le> m \<and> m < n + k \<longrightarrow> \<not> finished (st m)) \<Longrightarrow>
   poll st n = Some (st (n + k), n + k)"
proof (induction k arbitrary: n)
  case 0
  then show ?case by (simp add: poll.simps)
next
  case (Suc k)
  have nf: "\<not> finished (st n)" using Suc.prems(2) by simp
  have "poll st (Suc n) = Some (st (Suc n + k), Suc n + k)"
    using Suc.prems by (intro Suc.IH) auto
  then show ?case using nf by (subst poll.simps) simp
qed

lemma poll_Some_finished:
  assumes "poll st n = Some y"
  shows "\<exists>m. n \<le> m \<and> finished (st m) \<and> y = (st m, m)"
proof (rule poll.raw_induct
    [where P = "\<lambda>st n y. \<exists>m. n \<le> m \<and> finished (st m) \<and> y = (st m, m)", OF _ assms],
    goal_cases)
  case (1 p st n y)
  show ?case
  proof (cases "finished (st n)")
    case True
    with 1(2) show ?thesis by auto
  next
    case False
    with 1(2) have "p st (Suc n) = Some y" by simp
    from 1(1) [OF this] show ?thesis by (auto intro: Suc_leD)
  qed
qed

lemma poll_never:
  assumes "\<forall>m. \<not> finished (st m)"
  shows "poll st n = None"
proof (cases "poll st n")
  case None
  then show ?thesis .
next
  case (Some y)
  from poll_Some_finished [OF this] assms show ?thesis by blast
qed

lemma header_values_all:
  "list_all (\<lambda>c. c \<noteq> None) hs \<Longrightarrow> header_values hs = Inr (map the hs)"
  by (induction hs rule: header_values.induct) auto

lemma header_values_missing:
  "\<not> list_all (\<lambda>c. c \<noteq> None) hs \<Longrightarrow> header_values hs = Inl (Exception ''KeyError'')"
  by (induction hs rule: header_values.induct) (auto split: sum.splits)

lemma widest_same:
  "data \<noteq> [] \<Longrightarrow> list_all (\<lambda>r. length r = n) data \<Longrightarrow> widest data = n"
  unfolding widest_def
proof (induction data rule: rev_induct)
  case Nil then show ?case by simp
next
  case (snoc a data)
  then show ?case by (cases "data = []") auto
qed

lemma run_athena_query_never_returns:
  "\<forall>m. \<not> finished (state_at a m) \<Longrightarrow> run_athena_query a = None"
  by (simp add: run_athena_query_def poll_never)

lemma header_values_Some: "header_values (map Some hs) = Inr hs"
  by (induction hs) auto

lemma DataFrame_regular:
  assumes "list_all (\<lambda>r. length r = length headers) data"
  shows "DataFrame data headers
         = Inr \<lparr>columns = map (\<lambda>h. (h, Object)) headers, rows = map (map to_cell) data\<rparr>"
proof -
  have w: "data \<noteq> [] \<Longrightarrow> widest data = length headers"
    using assms by (simp add: widest_same)
  have "map (\<lambda>r. map to_cell r @ replicate (length headers - length r) Null) data
        = map (map to_cell) data"
    using assms by (induction data) auto
  with w show ?thesis by (auto simp: DataFrame_def)
qed

text \<open>
  C7, amended. \<open>run_athena_query\<close> polls until the first state that is SUCCEEDED,
  FAILED or CANCELLED. When that state is not SUCCEEDED it returns the empty frame. When it
  is SUCCEEDED, the first result row carries a value in every cell and every later row has
  as many cells as the first, it returns the frame whose labels are the values of the
  first row and whose rows are the later rows in order.
\<close>

theorem run_athena_query_result:
  assumes "finished (state_at a n)" and "\<forall>m<n. \<not> finished (state_at a m)"
  shows "poll (state_at a) 0 = Some (state_at a n, n)
       \<and> (state_at a n \<noteq> ''SUCCEEDED'' \<longrightarrow> run_athena_query a = Some (Inr empty_frame))
       \<and> (state_at a n = ''SUCCEEDED'' \<and> result_rows a = map Some headers # rest \<and>
          list_all (\<lambda>r. length r = length headers) rest \<longrightarrow>
            run_athena_query a
              = Some (Inr \<lparr>columns = map (\<lambda>h. (h, Object)) headers,
                           rows = map (map to_cell) rest\<rparr>))"
proof -
  have p: "poll (state_at a) 0 = Some (state_at a n, n)"
    using poll_finishes [of "state_at a" 0 n] assms by simp
  then show ?thesis
    by (auto simp: run_athena_query_def query_result_def header_values_Some DataFrame_regular)
qed

text \<open>
  C7 as stated fails on a query that succeeds with no result row: \<open>rows[0]\<close>
  raises \<open>IndexError\<close> and no frame is returned.
\<close>

theorem run_athena_query_no_rows_counterexample:
  "state_at ddl_athena 2 = ''SUCCEEDED'' \<and>
   poll (state_at ddl_athena) 0 = Some (''SUCCEEDED'', 2) \<and>
   run_athena_query ddl_athena = Some (Inl (Exception ''IndexError''))"
proof -
  have s: "state_at ddl_athena 2 = ''SUCCEEDED''" by (simp add: ddl_athena_def)
  have f: "finished (state_at ddl_athena (0 + 2))" by (simp add: ddl_athena_def finished_def)
  have n: "\<forall>m. 0 \<le> m \<and> m < 0 + 2 \<longrightarrow> \<not> finished (state_at ddl_athena m)"
    by (simp add: ddl_athena_def finished_def)
  have "poll (state_at ddl_athena) 0 = Some (state_at ddl_athena (0 + 2), 0 + 2)"
    using f n by (rule poll_finishes)
  then have p: "poll (state_at ddl_athena) 0 = Some (''SUCCEEDED'', 2)"
    by (simp only: s add_0)
  have r: "result_rows ddl_athena = []" by (simp add: ddl_athena_def)
  from s p r show ?thesis by (simp add: run_athena_query_def query_result_def)
qed

theorem run_athena_query_result_witness:
  "run_athena_query demo_athena
     = Some (Inr \<lparr>columns = [(''state'', Object), (''avg_beds'', Object)],
                  rows = [[Str ''TX'', Str ''101.5''], [Str ''CA'', Null]]\<rparr>)
   \<and> run_athena_query failed_athena = Some (Inr empty_frame)"
proof
  have f: "finished (state_at demo_athena 2)" by (simp add: demo_athena_def finished_def)
  have n: "\<forall>m<2. \<not> finished (state_at demo_athena m)" by (simp add: demo_athena_def finished_def)
  have s: "state_at demo_athena 2 = ''SUCCEEDED''" by (simp add: demo_athena_def)
  have r: "result_rows demo_athena
           = map Some [''state'', ''avg_beds''] # [[Some ''TX'', Some ''101.5''], [Some ''CA'', None]]"
    by (simp add: demo_athena_def)
  have l: "list_all (\<lambda>r. length r = length [''state'', ''avg_beds''])
             [[Some ''TX'', Some ''101.5''], [Some ''CA'', None :: string option]]"
    by simp
  from run_athena_query_result [OF f n, of "[''state'', ''avg_beds'']"
      "[[Some ''TX'', Some ''101.5''], [Some ''CA'', None]]"] s r l
  show "run_athena_query demo_athena
     = Some (Inr \<lparr>columns = [(''state'', Object), (''avg_beds'', Object)],
                  rows = [[Str ''TX'', Str ''101.5''], [Str ''CA'', Null]]\<rparr>)"
    by (simp add: to_cell_def)
next
  have f: "finished (state_at failed_athena 1)" by (simp add: failed_athena_def finished_def)
  have n: "\<forall>m<1. \<not> finished (state_at failed_athena m)"
    by (simp add: failed_athena_def finished_def)
  have s: "state_at failed_athena 1 \<noteq> ''SUCCEEDED''" by (simp add: failed_athena_def)
  from run_athena_query_result [OF f n] s
  show "run_athena_query failed_athena = Some (Inr empty_frame)" by blast
qed

end
